theory Spec2Isabelle
  imports Complex_Main "HOL-Library.Char_ord" "HOL-Library.List_Lexorder"
begin

section \<open>Data model\<close>

text \<open>
  The photo-sharing backend keeps three tables in a relational store (users, assets,
  labels), image blobs in an object store, and asks a label detector for annotations.
  The handlers of \<^verbatim>\<open>p2-ws/server\<close> are embedded as functions that take the world
  (the stores, the connection, and the behaviour of the environment) and return the
  response together with the new world.
\<close>

record user_row =
  u_userid :: int
  u_username :: string

record asset_row =
  a_assetid :: int
  a_userid :: int
  a_localname :: string
  a_bucketkey :: string

record label_row =
  l_assetid :: int
  l_label :: string
  l_confidence :: int

text \<open>One label of a detector response: \<^verbatim>\<open>label.Name\<close>, \<^verbatim>\<open>label.Confidence\<close>. The
  score is a finite floating-point number, that is a rational; it is kept as a real.\<close>

record rkg_label =
  Name :: string
  Confidence :: real

text \<open>JavaScript exceptions: \<^verbatim>\<open>ValueError\<close> (declared in helper.js, the class tested by
  \<^verbatim>\<open>err instanceof ValueError\<close>) and every other \<^verbatim>\<open>Error\<close>, each with its message.\<close>

datatype err = ValueError string | Error string

fun message :: "err \<Rightarrow> string" where
  "message (ValueError m) = m"
| "message (Error m) = m"

fun instanceof_ValueError :: "err \<Rightarrow> bool" where
  "instanceof_ValueError (ValueError m) = True"
| "instanceof_ValueError (Error m) = False"

text \<open>Every call that leaves the process is recorded, with whether it succeeded. An asset
  insert carries the id the store assigns to the row, a label insert the assetid it is
  given.\<close>

datatype call =
    Db_select
  | Db_statement
  | Db_begin
  | Db_commit
  | Db_rollback
  | Db_insert_asset int
  | Db_insert_label int
  | S3_put string
  | S3_get string
  | S3_delete "string list"
  | Rkg_detect

type_synonym event = "call \<times> bool"

text \<open>
  The world. \<open>assets\<close> and \<open>labels\<close> hold the committed rows, \<open>tx_assets\<close> and
  \<open>tx_labels\<close> the rows written by the open transaction. \<open>auto_increment\<close> is the next
  assetid. The environment is scripted: \<open>db_faults\<close> and \<open>s3_faults\<close> say for each
  coming call of the store whether it fails (\<open>Some\<close> message) or not, \<open>rkg_answers\<close>
  holds the detector's coming answers (a failure message, or the labels it sees in the
  image), \<open>uuids\<close> the coming results of \<^verbatim>\<open>uuidv4()\<close>. An exhausted script means: no
  failure. \<open>db_settles_first\<close> says which of two concurrently failing units rejects
  first.
\<close>

record world =
  users :: "user_row list"
  assets :: "asset_row list"
  labels :: "label_row list"
  auto_increment :: int
  tx_assets :: "asset_row list"
  tx_labels :: "label_row list"
  bucket :: "string \<rightharpoonup> string"
  conn_open :: bool
  db_faults :: "string option list"
  s3_faults :: "string option list"
  rkg_answers :: "(string + rkg_label list) list"
  uuids :: "string list"
  db_settles_first :: bool
  trace :: "event list"

type_synonym 'a io = "world \<Rightarrow> (err + 'a) \<times> world"

section \<open>The external collaborators\<close>

text \<open>Modelled from the spec: \<^verbatim>\<open>get_dbConn\<close> of helper.js is not among the sources. The
  spec has each request acquire its own connection; the model hands out an open one.\<close>

definition get_dbConn :: "world \<Rightarrow> world" where
  "get_dbConn w = w\<lparr>conn_open := True\<rparr>"

text \<open>\<^verbatim>\<open>dbConn.end()\<close>\<close>

definition dbConn_end :: "world \<Rightarrow> world" where
  "dbConn_end w = w\<lparr>conn_open := False\<rparr>"

text \<open>One call of the relational store: the next entry of the script decides whether it
  fails; the call is recorded.\<close>

definition db_call :: "call \<Rightarrow> world \<Rightarrow> string option \<times> world" where
  "db_call c w =
     (case db_faults w of
        [] \<Rightarrow> (None, w\<lparr>trace := trace w @ [(c, True)]\<rparr>)
      | f # fs \<Rightarrow> (f, w\<lparr>db_faults := fs, trace := trace w @ [(c, f = None)]\<rparr>))"

definition s3_call :: "call \<Rightarrow> world \<Rightarrow> string option \<times> world" where
  "s3_call c w =
     (case s3_faults w of
        [] \<Rightarrow> (None, w\<lparr>trace := trace w @ [(c, True)]\<rparr>)
      | f # fs \<Rightarrow> (f, w\<lparr>s3_faults := fs, trace := trace w @ [(c, f = None)]\<rparr>))"

text \<open>
  Modelled from the spec: the relational store "executes parameterized
  queries/statements, supports transactions (begin/commit/rollback)". A transaction
  collects its rows; commit appends them to the tables; a transaction that is not
  committed leaves nothing behind. A failed call raises and has no effect, except that
  the rows of the transaction are gone after a rollback even when the rollback call
  itself reports a failure (the store drops an uncommitted transaction on its own).
  The AUTO_INCREMENT counter is not part of the transaction: an id handed out is not
  reused after a rollback.
\<close>

definition beginTransaction :: "unit io" where
  "beginTransaction w =
     (case db_call Db_begin w of
        (Some m, w') \<Rightarrow> (Inl (Error m), w')
      | (None, w') \<Rightarrow> (Inr (), w'\<lparr>tx_assets := [], tx_labels := []\<rparr>))"

definition commit :: "unit io" where
  "commit w =
     (case db_call Db_commit w of
        (Some m, w') \<Rightarrow> (Inl (Error m), w')
      | (None, w') \<Rightarrow>
          (Inr (), w'\<lparr>assets := assets w' @ tx_assets w',
                      labels := labels w' @ tx_labels w',
                      tx_assets := [], tx_labels := []\<rparr>))"

definition rollback :: "unit io" where
  "rollback w =
     (case db_call Db_rollback w of
        (Some m, w') \<Rightarrow> (Inl (Error m), w'\<lparr>tx_assets := [], tx_labels := []\<rparr>)
      | (None, w') \<Rightarrow> (Inr (), w'\<lparr>tx_assets := [], tx_labels := []\<rparr>))"

text \<open>The catch block shared by the transactional steps:
  \<^verbatim>\<open>await dbConn.rollback(); console.log(...); throw err;\<close>
  An exception of the rollback replaces the one being handled.\<close>

definition rollback_and_rethrow :: "err \<Rightarrow> 'a io" where
  "rollback_and_rethrow e w =
     (case rollback w of
        (Inl e', w') \<Rightarrow> (Inl e', w')
      | (Inr _, w') \<Rightarrow> (Inl e, w'))"

text \<open>\<^verbatim>\<open>Select username From users Where userid = ?\<close>\<close>

definition execute_select_username :: "int \<Rightarrow> string list io" where
  "execute_select_username userid w =
     (case db_call Db_select w of
        (Some m, w') \<Rightarrow> (Inl (Error m), w')
      | (None, w') \<Rightarrow>
          (Inr (map u_username (filter (\<lambda>u. u_userid u = userid) (users w'))), w'))"

text \<open>\<^verbatim>\<open>Insert Into assets( userid, localname, bucketkey ) Values( ?, ?, ? )\<close>; yields
  \<^verbatim>\<open>info.insertId\<close>.\<close>

definition execute_insert_asset :: "int \<Rightarrow> string \<Rightarrow> string \<Rightarrow> int io" where
  "execute_insert_asset userid local_filename bkt_key w =
     (case db_call (Db_insert_asset (auto_increment w)) w of
        (Some m, w') \<Rightarrow> (Inl (Error m), w')
      | (None, w') \<Rightarrow>
          (Inr (auto_increment w'),
           w'\<lparr>tx_assets := tx_assets w' @
                 [\<lparr>a_assetid = auto_increment w', a_userid = userid,
                   a_localname = local_filename, a_bucketkey = bkt_key\<rparr>],
               auto_increment := auto_increment w' + 1\<rparr>))"

text \<open>\<^verbatim>\<open>Insert Into labels( assetid, label, confidence ) Values( ?, ?, ? )\<close>\<close>

definition execute_insert_label :: "int \<Rightarrow> string \<Rightarrow> int \<Rightarrow> unit io" where
  "execute_insert_label assetid name conf_int w =
     (case db_call (Db_insert_label assetid) w of
        (Some m, w') \<Rightarrow> (Inl (Error m), w')
      | (None, w') \<Rightarrow>
          (Inr (),
           w'\<lparr>tx_labels := tx_labels w' @
                 [\<lparr>l_assetid = assetid, l_label = name, l_confidence = conf_int\<rparr>]\<rparr>))"

text \<open>\<^verbatim>\<open>PutObjectCommand\<close> sent to the bucket.\<close>

definition bkt_send_put :: "string \<Rightarrow> string \<Rightarrow> unit io" where
  "bkt_send_put bkt_key body w =
     (case s3_call (S3_put bkt_key) w of
        (Some m, w') \<Rightarrow> (Inl (Error m), w')
      | (None, w') \<Rightarrow> (Inr (), w'\<lparr>bucket := (bucket w')(bkt_key \<mapsto> body)\<rparr>))"

text \<open>Modelled from the spec: the Label Detector, "requesting at most 10 results with a
  minimum confidence threshold of 90 (out of 100); returns zero or more (name,
  confidence) pairs". Of the labels it sees it returns those that reach
  \<^verbatim>\<open>MinConfidence\<close>, at most \<^verbatim>\<open>MaxLabels\<close> of them.\<close>

definition rkg_send :: "nat \<Rightarrow> real \<Rightarrow> rkg_label list io" where
  "rkg_send MaxLabels MinConfidence w =
     (case rkg_answers w of
        [] \<Rightarrow> (Inr [], w\<lparr>trace := trace w @ [(Rkg_detect, True)]\<rparr>)
      | Inl m # rs \<Rightarrow>
          (Inl (Error m), w\<lparr>rkg_answers := rs, trace := trace w @ [(Rkg_detect, False)]\<rparr>)
      | Inr seen # rs \<Rightarrow>
          (Inr (take MaxLabels (filter (\<lambda>l. MinConfidence \<le> Confidence l) seen)),
           w\<lparr>rkg_answers := rs, trace := trace w @ [(Rkg_detect, True)]\<rparr>))"

text \<open>\<^verbatim>\<open>uuidv4()\<close>: the next identifier of the supply.\<close>

definition uuidv4 :: "world \<Rightarrow> string \<times> world" where
  "uuidv4 w = (case uuids w of [] \<Rightarrow> ([], w) | u # us \<Rightarrow> (u, w\<lparr>uuids := us\<rparr>))"

text \<open>Modelled from the spec: the Retry Wrapper (the p-retry package), "invoke the unit;
  on failure, re-invoke up to N additional times; surface the final failure unchanged if
  all attempts fail; return the first successful result otherwise".\<close>

fun pRetry :: "nat \<Rightarrow> 'a io \<Rightarrow> 'a io" where
  "pRetry 0 f w = f w"
| "pRetry (Suc n) f w =
     (case f w of
        (Inr v, w') \<Rightarrow> (Inr v, w')
      | (Inl e, w') \<Rightarrow> pRetry n f w')"

text \<open>\<^verbatim>\<open>await Promise.all([p, q])\<close> for the two units of the fan-out. They work on
  disjoint parts of the world (the relational store, the detector). The schedule that is
  modelled is the one in which the registration runs to its end and the detector settles
  after it; the promise rejects with the error of the unit that rejects first. In the
  code the detector call is sent before the registration begins, and a rejection of the
  detector that arrives while the registration is still running lets the handler answer
  and end the connection under it; that schedule, in which the registration is cut
  short, is not among the runs of the model.\<close>

definition promise_all :: "'a io \<Rightarrow> 'b io \<Rightarrow> ('a \<times> 'b) io" where
  "promise_all p q w =
     (case p w of (r1, w1) \<Rightarrow>
      case q w1 of (r2, w2) \<Rightarrow>
        (case r1 of
           Inr a \<Rightarrow> (case r2 of Inr b \<Rightarrow> (Inr (a, b), w2) | Inl e2 \<Rightarrow> (Inl e2, w2))
         | Inl e1 \<Rightarrow>
             (case r2 of
                Inr b \<Rightarrow> (Inl e1, w2)
              | Inl e2 \<Rightarrow> (Inl (if db_settles_first w then e1 else e2), w2))))"

section \<open>post /image\<close>

text \<open>The request: the path parameter \<^verbatim>\<open>userid\<close>, which the store compares with the
  integer column of the same name and which is kept as the integer it denotes, and the
  two fields of the body.\<close>

record post_image_request =
  pi_userid :: int
  pi_local_filename :: string
  pi_data :: string

record post_image_response =
  pi_status :: nat
  pi_message :: string
  pi_assetid :: int

definition lookup_user :: "int \<Rightarrow> string io" where
  "lookup_user userid w =
     (case execute_select_username userid w of
        (Inl e, w') \<Rightarrow> (Inl e, w')
      | (Inr rows, w') \<Rightarrow>
          (if length rows < 1 then (Inl (ValueError ''no such userid''), w')
           else if length rows > 1 then (Inl (Error ''unexpected duplicate userid''), w')
           else (Inr (rows ! 0), w')))"

definition upload_to_bucket :: "string \<Rightarrow> string \<Rightarrow> string \<Rightarrow> string io" where
  "upload_to_bucket username local_filename img_bytes w =
     (case uuidv4 w of (uuid, w1) \<Rightarrow>
      let bkt_key = username @ ''/'' @ uuid @ ''-'' @ local_filename in
      case bkt_send_put bkt_key img_bytes w1 of
        (Inl e, w2) \<Rightarrow> (Inl e, w2)
      | (Inr _, w2) \<Rightarrow> (Inr bkt_key, w2))"

definition update_db :: "int \<Rightarrow> string \<Rightarrow> string \<Rightarrow> int io" where
  "update_db userid local_filename bkt_key w =
     (case beginTransaction w of
        (Inl e, w1) \<Rightarrow> (Inl e, w1)
      | (Inr _, w1) \<Rightarrow>
          (case execute_insert_asset userid local_filename bkt_key w1 of
             (Inl e, w2) \<Rightarrow> rollback_and_rethrow e w2
           | (Inr insertId, w2) \<Rightarrow>
               (case commit w2 of
                  (Inl e, w3) \<Rightarrow> rollback_and_rethrow e w3
                | (Inr _, w3) \<Rightarrow> (Inr insertId, w3))))"

definition detect_labels :: "string \<Rightarrow> rkg_label list io" where
  "detect_labels img_bytes w = rkg_send 10 90 w"

text \<open>The loop of \<^verbatim>\<open>update_labels\<close>:
  \<^verbatim>\<open>for ( let label of rkg_labels.Labels ) { const conf_int = Math.floor( label.Confidence ); await dbConn.execute(...) }\<close>\<close>

fun insert_labels :: "int \<Rightarrow> rkg_label list \<Rightarrow> unit io" where
  "insert_labels assetid [] w = (Inr (), w)"
| "insert_labels assetid (label # rest) w =
     (let conf_int = \<lfloor>Confidence label\<rfloor> in
      case execute_insert_label assetid (Name label) conf_int w of
        (Inl e, w') \<Rightarrow> (Inl e, w')
      | (Inr _, w') \<Rightarrow> insert_labels assetid rest w')"

definition update_labels :: "int \<Rightarrow> rkg_label list \<Rightarrow> unit io" where
  "update_labels assetid rkg_labels w =
     (case beginTransaction w of
        (Inl e, w1) \<Rightarrow> (Inl e, w1)
      | (Inr _, w1) \<Rightarrow>
          (case insert_labels assetid rkg_labels w1 of
             (Inl e, w2) \<Rightarrow> rollback_and_rethrow e w2
           | (Inr _, w2) \<Rightarrow>
               (case commit w2 of
                  (Inl e, w3) \<Rightarrow> rollback_and_rethrow e w3
                | (Inr _, w3) \<Rightarrow> (Inr (), w3))))"

text \<open>The steps of the \<^verbatim>\<open>try\<close> block of \<^verbatim>\<open>post_image\<close>, from the fan-out on and as a
  whole.\<close>

definition register_and_label :: "int \<Rightarrow> string \<Rightarrow> string \<Rightarrow> string \<Rightarrow> int io" where
  "register_and_label userid local_filename img_bytes bkt_key w =
     (case promise_all (pRetry 2 (update_db userid local_filename bkt_key))
             (detect_labels img_bytes) w of
        (Inl e, w3) \<Rightarrow> (Inl e, w3)
      | (Inr (assetid, rkg_labels), w3) \<Rightarrow>
          (case pRetry 2 (update_labels assetid rkg_labels) w3 of
             (Inl e, w4) \<Rightarrow> (Inl e, w4)
           | (Inr _, w4) \<Rightarrow> (Inr assetid, w4)))"

definition post_image_try :: "post_image_request \<Rightarrow> int io" where
  "post_image_try request w =
     (let userid = pi_userid request;
          local_filename = pi_local_filename request;
          img_bytes = pi_data request
      in case pRetry 2 (lookup_user userid) w of
           (Inl e, w1) \<Rightarrow> (Inl e, w1)
         | (Inr username, w1) \<Rightarrow>
             (case upload_to_bucket username local_filename img_bytes w1 of
                (Inl e, w2) \<Rightarrow> (Inl e, w2)
              | (Inr bkt_key, w2) \<Rightarrow>
                  register_and_label userid local_filename img_bytes bkt_key w2))"

definition post_image :: "post_image_request \<Rightarrow> world \<Rightarrow> post_image_response \<times> world" where
  "post_image request w =
     (case post_image_try request (get_dbConn w) of
        (Inr assetid, w') \<Rightarrow>
          (\<lparr>pi_status = 200, pi_message = ''success'', pi_assetid = assetid\<rparr>,
           dbConn_end w')
      | (Inl err, w') \<Rightarrow>
          (\<lparr>pi_status = (if instanceof_ValueError err then 400 else 500),
            pi_message = message err, pi_assetid = - 1\<rparr>,
           dbConn_end w'))"

section \<open>parseInt\<close>

text \<open>
  \<^verbatim>\<open>parseInt(string)\<close> without a radix: leading white space (of the ASCII range) is
  skipped, a sign is read,
  a prefix \<^verbatim>\<open>0x\<close> or \<^verbatim>\<open>0X\<close> selects radix 16, and the longest prefix of digits is the
  value; without a digit the result is \<^verbatim>\<open>NaN\<close>, here \<open>None\<close>. The result is kept as an
  integer (the rounding of values beyond 2^53 is left out).
\<close>

definition is_white_space :: "char \<Rightarrow> bool" where
  "is_white_space c \<longleftrightarrow> (of_char c :: nat) \<in> {9, 10, 11, 12, 13, 32}"

definition digit_value :: "char \<Rightarrow> nat option" where
  "digit_value c =
     (let n = (of_char c :: nat) in
      if 48 \<le> n \<and> n \<le> 57 then Some (n - 48)
      else if 97 \<le> n \<and> n \<le> 122 then Some (n - 87)
      else if 65 \<le> n \<and> n \<le> 90 then Some (n - 55)
      else None)"

fun digits_prefix :: "nat \<Rightarrow> string \<Rightarrow> nat list" where
  "digits_prefix R [] = []"
| "digits_prefix R (c # cs) =
     (case digit_value c of
        None \<Rightarrow> []
      | Some d \<Rightarrow> if d < R then d # digits_prefix R cs else [])"

definition strip_sign :: "string \<Rightarrow> bool \<times> string" where
  "strip_sign S =
     (case S of
        [] \<Rightarrow> (False, [])
      | c # r \<Rightarrow>
          if c = CHR ''-'' then (True, r)
          else if c = CHR ''+'' then (False, r)
          else (False, S))"

definition strip_prefix :: "string \<Rightarrow> nat \<times> string" where
  "strip_prefix S =
     (case S of
        a # b # r \<Rightarrow>
          if a = CHR ''0'' \<and> (b = CHR ''x'' \<or> b = CHR ''X'') then (16, r) else (10, S)
      | _ \<Rightarrow> (10, S))"

definition parseInt :: "string \<Rightarrow> int option" where
  "parseInt string =
     (case strip_sign (dropWhile is_white_space string) of (negative, S1) \<Rightarrow>
      case strip_prefix S1 of (R, S2) \<Rightarrow>
      let Z = digits_prefix R S2 in
      if Z = [] then None
      else let mathInt = int (foldl (\<lambda>acc d. acc * R + d) 0 Z)
           in Some (if negative then - mathInt else mathInt))"

section \<open>get /image_labels\<close>

record image_labels_response =
  gl_status :: nat
  gl_message :: string
  gl_data :: "(string \<times> int) list"

text \<open>\<^verbatim>\<open>Select ... From assets Where assetid = ?\<close>. The parameter is the result of
  \<^verbatim>\<open>parseInt\<close>; \<^verbatim>\<open>NaN\<close> is the id of no row.\<close>

definition execute_select_asset :: "int option \<Rightarrow> asset_row list io" where
  "execute_select_asset assetid w =
     (case db_call Db_select w of
        (Some m, w') \<Rightarrow> (Inl (Error m), w')
      | (None, w') \<Rightarrow>
          (Inr (filter (\<lambda>a. Some (a_assetid a) = assetid) (assets w')), w'))"

text \<open>\<^verbatim>\<open>Select label, confidence From labels Where assetid = ? Order By label Asc\<close>.
  The order of the store on labels is taken to be the lexicographic order of their
  characters.\<close>

definition execute_select_labels :: "int option \<Rightarrow> label_row list io" where
  "execute_select_labels assetid w =
     (case db_call Db_select w of
        (Some m, w') \<Rightarrow> (Inl (Error m), w')
      | (None, w') \<Rightarrow>
          (Inr (sort_key l_label (filter (\<lambda>l. Some (l_assetid l) = assetid) (labels w'))),
           w'))"

text \<open>\<^verbatim>\<open>validate_assetid\<close> of get_image_labels.\<close>

definition labels_validate_assetid :: "int option \<Rightarrow> unit io" where
  "labels_validate_assetid assetid w =
     (case execute_select_asset assetid w of
        (Inl e, w') \<Rightarrow> (Inl e, w')
      | (Inr rows, w') \<Rightarrow>
          (if length rows < 1 then (Inl (Error ''no such assetid''), w')
           else if length rows > 1 then (Inl (Error ''unexpected duplicate assetid''), w')
           else (Inr (), w')))"

text \<open>\<^verbatim>\<open>parseInt( row[ 'confidence' ] )\<close> reads an integer column and gives the integer
  back.\<close>

definition fetch_labels :: "int option \<Rightarrow> (string \<times> int) list io" where
  "fetch_labels assetid w =
     (case execute_select_labels assetid w of
        (Inl e, w') \<Rightarrow> (Inl e, w')
      | (Inr rows, w') \<Rightarrow> (Inr (map (\<lambda>row. (l_label row, l_confidence row)) rows), w'))"

definition get_image_labels_try :: "string \<Rightarrow> (string \<times> int) list io" where
  "get_image_labels_try param w =
     (let assetid = parseInt param in
      case pRetry 2 (labels_validate_assetid assetid) w of
        (Inl e, w1) \<Rightarrow> (Inl e, w1)
      | (Inr _, w1) \<Rightarrow> pRetry 2 (fetch_labels assetid) w1)"

text \<open>The handler has a \<^verbatim>\<open>catch\<close> block and no \<^verbatim>\<open>finally\<close> block.\<close>

definition get_image_labels :: "string \<Rightarrow> world \<Rightarrow> image_labels_response \<times> world" where
  "get_image_labels param w =
     (case get_image_labels_try param (get_dbConn w) of
        (Inr records, w') \<Rightarrow>
          (\<lparr>gl_status = 200, gl_message = ''success'', gl_data = records\<rparr>, w')
      | (Inl err, w') \<Rightarrow>
          (\<lparr>gl_status = 500, gl_message = message err, gl_data = []\<rparr>, w'))"

section \<open>get /images\<close>

record images_response =
  gs_status :: nat
  gs_message :: string
  gs_data :: "asset_row list"

text \<open>
  \<^verbatim>\<open>Select assetid, userid, localname, bucketkey From assets [Where userid = ?] Order By assetid Asc\<close>
  executed as a prepared statement with the given parameters. A statement with a
  placeholder and no parameter is rejected by the store; parameters beyond the
  placeholders of the statement are not looked at (the unfiltered query is always sent
  with one).
\<close>

definition execute_select_assets :: "bool \<Rightarrow> int list \<Rightarrow> asset_row list io" where
  "execute_select_assets where_userid params w =
     (if where_userid \<and> params = [] then
        (Inl (Error ''Incorrect arguments to mysqld_stmt_execute''),
         w\<lparr>trace := trace w @ [(Db_select, False)]\<rparr>)
      else
        (case db_call Db_select w of
           (Some m, w') \<Rightarrow> (Inl (Error m), w')
         | (None, w') \<Rightarrow>
             (Inr (sort_key a_assetid
                     (if where_userid
                      then filter (\<lambda>a. a_userid a = hd params) (assets w')
                      else assets w')), w')))"

text \<open>\<^verbatim>\<open>if ( userid >= 0 )\<close> adds the Where clause; the parameters are
  \<^verbatim>\<open>userid ? [ userid, ] : []\<close>, and the number 0 is falsy. The connection is opened in
  the \<^verbatim>\<open>try\<close> block and closed in the \<^verbatim>\<open>finally\<close> block of every attempt.\<close>

definition try_get_images :: "int \<Rightarrow> asset_row list io" where
  "try_get_images userid w =
     (let where_userid = (userid \<ge> 0);
          params = (if userid \<noteq> 0 then [userid] else [])
      in case execute_select_assets where_userid params (get_dbConn w) of
           (Inl e, w') \<Rightarrow> (Inl e, dbConn_end w')
         | (Inr rows, w') \<Rightarrow> (Inr rows, dbConn_end w'))"

text \<open>\<^verbatim>\<open>request.query.userid\<close> is absent (\<open>None\<close>) or a string; the empty string is
  falsy.\<close>

definition get_images_try :: "string option \<Rightarrow> asset_row list io" where
  "get_images_try query_userid w =
     (let userid =
            (case query_userid of
               None \<Rightarrow> Some (- 1)
             | Some s \<Rightarrow> if s = [] then Some (- 1) else parseInt s)
      in case userid of
           None \<Rightarrow> (Inl (Error ''get_images(): userid is not numeric''), w)
         | Some u \<Rightarrow> pRetry 2 (try_get_images u) w)"

definition get_images :: "string option \<Rightarrow> world \<Rightarrow> images_response \<times> world" where
  "get_images query_userid w =
     (case get_images_try query_userid w of
        (Inr rows, w') \<Rightarrow>
          (\<lparr>gs_status = 200, gs_message = ''success'', gs_data = rows\<rparr>, w')
      | (Inl err, w') \<Rightarrow>
          (\<lparr>gs_status = 500, gs_message = message err, gs_data = []\<rparr>, w'))"

section \<open>get /image\<close>

text \<open>The image travels as base64 text and is stored as bytes. The model keeps the
  payload as it arrives: decoding on upload and encoding on download are the identity,
  as they are for canonical base64 text (text that is not canonical base64 comes back
  changed in the code; the model does not cover it). On error the response has no
  \<^verbatim>\<open>local_filename\<close> and no \<^verbatim>\<open>data\<close>.\<close>

record image_response =
  gi_status :: nat
  gi_message :: string
  gi_userid :: int
  gi_local_filename :: "string option"
  gi_data :: "string option"

definition validate_assetid :: "int \<Rightarrow> asset_row io" where
  "validate_assetid assetid w =
     (case execute_select_asset (Some assetid) w of
        (Inl e, w') \<Rightarrow> (Inl e, w')
      | (Inr rows, w') \<Rightarrow>
          (if length rows < 1 then (Inl (Error ''get_image: no such assetid''), w')
           else if length rows > 1
           then (Inl (Error ''get_image: unexpected duplicate assetid''), w')
           else (Inr (rows ! 0), w')))"

text \<open>\<^verbatim>\<open>GetObjectCommand\<close>: the object store fails for a key it does not hold.\<close>

definition download_image_str :: "string \<Rightarrow> string io" where
  "download_image_str bkt_key w =
     (case s3_call (S3_get bkt_key) w of
        (Some m, w') \<Rightarrow> (Inl (Error m), w')
      | (None, w') \<Rightarrow>
          (case bucket w' bkt_key of
             None \<Rightarrow> (Inl (Error ''The specified key does not exist.''), w')
           | Some img_bytes \<Rightarrow> (Inr img_bytes, w')))"

definition get_image_try :: "string \<Rightarrow> (int \<times> string \<times> string) io" where
  "get_image_try param w =
     (case parseInt param of
        None \<Rightarrow> (Inl (Error ''get_image: assetid is not numeric''), w)
      | Some assetid \<Rightarrow>
          (case pRetry 2 (validate_assetid assetid) w of
             (Inl e, w1) \<Rightarrow> (Inl e, w1)
           | (Inr row, w1) \<Rightarrow>
               (case download_image_str (a_bucketkey row) w1 of
                  (Inl e, w2) \<Rightarrow> (Inl e, w2)
                | (Inr img_str, w2) \<Rightarrow>
                    (Inr (a_userid row, a_localname row, img_str), w2))))"

definition get_image :: "string \<Rightarrow> world \<Rightarrow> image_response \<times> world" where
  "get_image param w =
     (case get_image_try param (get_dbConn w) of
        (Inr (userid, local_filename, img_str), w') \<Rightarrow>
          (\<lparr>gi_status = 200, gi_message = ''success'', gi_userid = userid,
            gi_local_filename = Some local_filename, gi_data = Some img_str\<rparr>,
           dbConn_end w')
      | (Inl err, w') \<Rightarrow>
          (\<lparr>gi_status = 500, gi_message = message err, gi_userid = - 1,
            gi_local_filename = None, gi_data = None\<rparr>,
           dbConn_end w'))"

section \<open>delete /images\<close>

record delete_response =
  d_status :: nat
  d_message :: string

text \<open>\<^verbatim>\<open>Select bucketkey From assets\<close>\<close>

definition get_keys :: "string list io" where
  "get_keys w =
     (case db_call Db_select w of
        (Some m, w') \<Rightarrow> (Inl (Error m), w')
      | (None, w') \<Rightarrow> (Inr (map a_bucketkey (assets w')), w'))"

text \<open>The statements of \<^verbatim>\<open>clear_db\<close>. TRUNCATE TABLE and ALTER TABLE take effect when
  they are executed.\<close>

datatype clause =
    Set_foreign_key_checks bool
  | Truncate_labels
  | Truncate_assets
  | Alter_auto_increment int

definition delete_sql :: "clause list" where
  "delete_sql =
     [Set_foreign_key_checks False, Truncate_labels, Truncate_assets,
      Set_foreign_key_checks True, Alter_auto_increment 1001]"

fun apply_clause :: "clause \<Rightarrow> world \<Rightarrow> world" where
  "apply_clause (Set_foreign_key_checks b) w = w"
| "apply_clause Truncate_labels w = w\<lparr>labels := []\<rparr>"
| "apply_clause Truncate_assets w = w\<lparr>assets := []\<rparr>"
| "apply_clause (Alter_auto_increment n) w = w\<lparr>auto_increment := n\<rparr>"

definition execute_clause :: "clause \<Rightarrow> unit io" where
  "execute_clause c w =
     (case db_call Db_statement w of
        (Some m, w') \<Rightarrow> (Inl (Error m), w')
      | (None, w') \<Rightarrow> (Inr (), apply_clause c w'))"

fun execute_clauses :: "clause list \<Rightarrow> unit io" where
  "execute_clauses [] w = (Inr (), w)"
| "execute_clauses (c # cs) w =
     (case execute_clause c w of
        (Inl e, w') \<Rightarrow> (Inl e, w')
      | (Inr _, w') \<Rightarrow> execute_clauses cs w')"

definition clear_db :: "unit io" where
  "clear_db w =
     (case beginTransaction w of
        (Inl e, w1) \<Rightarrow> (Inl e, w1)
      | (Inr _, w1) \<Rightarrow>
          (case execute_clauses delete_sql w1 of
             (Inl e, w2) \<Rightarrow> rollback_and_rethrow e w2
           | (Inr _, w2) \<Rightarrow>
               (case commit w2 of
                  (Inl e, w3) \<Rightarrow> rollback_and_rethrow e w3
                | (Inr _, w3) \<Rightarrow> (Inr (), w3))))"

text \<open>\<^verbatim>\<open>DeleteObjectsCommand\<close>; the catch block logs and rethrows.\<close>

definition clear_bkt :: "string list \<Rightarrow> unit io" where
  "clear_bkt keydict w =
     (case s3_call (S3_delete keydict) w of
        (Some m, w') \<Rightarrow> (Inl (Error m), w')
      | (None, w') \<Rightarrow>
          (Inr (), w'\<lparr>bucket := (\<lambda>k. if k \<in> set keydict then None else bucket w' k)\<rparr>))"

definition delete_images_try :: "unit io" where
  "delete_images_try w =
     (case pRetry 2 get_keys w of
        (Inl e, w1) \<Rightarrow> (Inl e, w1)
      | (Inr keys, w1) \<Rightarrow>
          (let keydict = keys in
           case clear_db w1 of
             (Inl e, w2) \<Rightarrow> (Inl e, w2)
           | (Inr _, w2) \<Rightarrow>
               (if length keydict > 0 then clear_bkt keydict w2 else (Inr (), w2))))"

definition delete_images :: "world \<Rightarrow> delete_response \<times> world" where
  "delete_images w =
     (case delete_images_try (get_dbConn w) of
        (Inr _, w') \<Rightarrow> (\<lparr>d_status = 200, d_message = ''success''\<rparr>, dbConn_end w')
      | (Inl err, w') \<Rightarrow> (\<lparr>d_status = 500, d_message = message err\<rparr>, dbConn_end w'))"

section \<open>A sample world\<close>

text \<open>One user, one asset with one label and its blob, and an environment without
  failures whose detector sees three labels in the next image.\<close>

definition example_world :: world where
  "example_world =
     \<lparr>users = [\<lparr>u_userid = 80001, u_username = ''p_sarkar''\<rparr>],
      assets = [\<lparr>a_assetid = 1001, a_userid = 80001, a_localname = ''dog.jpg'',
                a_bucketkey = ''p_sarkar/u0-dog.jpg''\<rparr>],
      labels = [\<lparr>l_assetid = 1001, l_label = ''Dog'', l_confidence = 99\<rparr>],
      auto_increment = 1002,
      tx_assets = [], tx_labels = [],
      bucket = [''p_sarkar/u0-dog.jpg'' \<mapsto> ''AAAA''],
      conn_open = False,
      db_faults = [], s3_faults = [],
      rkg_answers =
        [Inr [\<lparr>Name = ''Sailboat'', Confidence = 995 / 10\<rparr>,
              \<lparr>Name = ''Boat'', Confidence = 917 / 10\<rparr>,
              \<lparr>Name = ''Water'', Confidence = 50\<rparr>]],
      uuids = [''u1''],
      db_settles_first = True,
      trace = []\<rparr>"

section \<open>Notions used in the statements\<close>

text \<open>The entry of a failure script that decides the call after \<open>n\<close> earlier ones.\<close>

definition fault_at :: "nat \<Rightarrow> string option list \<Rightarrow> string option" where
  "fault_at n fs = (if n < length fs then fs ! n else None)"

text \<open>The label rows of one batch: what the loop of \<^verbatim>\<open>update_labels\<close> hands to the
  store for a detector response.\<close>

definition label_rows :: "int \<Rightarrow> rkg_label list \<Rightarrow> label_row list" where
  "label_rows assetid ls =
     map (\<lambda>l. \<lparr>l_assetid = assetid, l_label = Name l, l_confidence = \<lfloor>Confidence l\<rfloor>\<rparr>) ls"

text \<open>The part of the world that no call of the relational store touches.\<close>

definition outside_db :: "world \<Rightarrow>
    user_row list \<times> (string \<rightharpoonup> string) \<times> bool \<times> string option list \<times>
    (string + rkg_label list) list \<times> string list \<times> bool" where
  "outside_db w =
     (users w, bucket w, conn_open w, s3_faults w, rkg_answers w, uuids w, db_settles_first w)"

text \<open>The sample world with an object store that refuses the next command.\<close>

definition bucket_failure_world :: world where
  "bucket_failure_world = example_world\<lparr>s3_faults := [Some ''AccessDenied'']\<rparr>"

text \<open>The tables of the relational store with the rows of the open transaction.\<close>

definition tables :: "world \<Rightarrow>
    asset_row list \<times> label_row list \<times> int \<times> asset_row list \<times> label_row list" where
  "tables w = (assets w, labels w, auto_increment w, tx_assets w, tx_labels w)"

text \<open>An upload by the user of the sample world, the sample world with a detector that
  fails, and the worlds this upload goes through there.\<close>

definition cat_upload :: post_image_request where
  "cat_upload = \<lparr>pi_userid = 80001, pi_local_filename = ''cat.jpg'', pi_data = ''BBBB''\<rparr>"

definition detector_failure_world :: world where
  "detector_failure_world = example_world\<lparr>rkg_answers := [Inl ''ThrottlingException'']\<rparr>"

definition after_lookup :: world where
  "after_lookup = snd (pRetry 2 (lookup_user 80001) (get_dbConn detector_failure_world))"

definition after_upload :: world where
  "after_upload = snd (upload_to_bucket ''p_sarkar'' ''cat.jpg'' ''BBBB'' after_lookup)"

definition after_registration :: world where
  "after_registration =
     snd (pRetry 2 (update_db 80001 ''cat.jpg'' ''p_sarkar/u1-cat.jpg'') after_upload)"

definition after_detection :: world where
  "after_detection = snd (detect_labels ''BBBB'' after_registration)"

text \<open>The first \<open>n\<close> coming calls of a store do not fail.\<close>

definition no_fault :: "nat \<Rightarrow> string option list \<Rightarrow> bool" where
  "no_fault n fs = list_all (\<lambda>f. f = None) (take n fs)"

text \<open>A detector response of two labels, and the sample world with a store that fails
  the third coming call (for a label batch: the second insert).\<close>

definition boat_labels :: "rkg_label list" where
  "boat_labels =
     [\<lparr>Name = ''Sailboat'', Confidence = 995 / 10\<rparr>,
      \<lparr>Name = ''Boat'', Confidence = 917 / 10\<rparr>]"

definition insert_failure_world :: world where
  "insert_failure_world = example_world\<lparr>db_faults := [None, None, Some ''Lock wait timeout'']\<rparr>"

text \<open>An upload for an owner id that the sample world does not have, and the sample world
  with a store that answers two calls and fails the third.\<close>

definition unknown_owner_upload :: post_image_request where
  "unknown_owner_upload =
     \<lparr>pi_userid = 999999, pi_local_filename = ''cat.jpg'', pi_data = ''BBBB''\<rparr>"

definition lookup_retry_failure_world :: world where
  "lookup_retry_failure_world = example_world\<lparr>db_faults := [None, None, Some ''gone away'']\<rparr>"

section \<open>The order of the calls\<close>

text \<open>
  Reading a trace: \<open>track\<close> follows which asset ids the request has committed and which
  it has inserted in the transaction that is open. A begin starts with no pending id, a
  successful asset insert adds its id to the pending ones, a successful commit moves the
  pending ids to the committed ones, a rollback drops them.
\<close>

fun track :: "int list \<times> int list \<Rightarrow> event \<Rightarrow> int list \<times> int list" where
  "track (cs, ps) (Db_begin, ok) = (cs, if ok then [] else ps)"
| "track (cs, ps) (Db_insert_asset a, ok) = (cs, if ok then a # ps else ps)"
| "track (cs, ps) (Db_commit, ok) = (if ok then ps @ cs else cs, if ok then [] else ps)"
| "track (cs, ps) (Db_rollback, ok) = (cs, [])"
| "track (cs, ps) (c, ok) = (cs, ps)"

text \<open>A trace is in order when every label insert it sends carries an assetid that
  is committed at that point.\<close>

fun label_inserts_follow_commit :: "int list \<times> int list \<Rightarrow> event list \<Rightarrow> bool" where
  "label_inserts_follow_commit st [] = True"
| "label_inserts_follow_commit st (ev # evs) =
     ((case fst ev of Db_insert_label a \<Rightarrow> a \<in> set (fst st) | _ \<Rightarrow> True) \<and>
      label_inserts_follow_commit (track st ev) evs)"

text \<open>Properties of the events a step adds to the trace: no label insert among them
  (\<open>quiet\<close>); only the calls of a label transaction for one assetid (\<open>label_tx\<close>); the
  assetid is committed after them, whatever went before (\<open>commits\<close>); in order whatever
  went before (\<open>in_order\<close>). \<open>emits P w w'\<close>: the trace of \<open>w'\<close> is the trace of \<open>w\<close>
  and further events with property \<open>P\<close>.\<close>

definition is_label_insert :: "event \<Rightarrow> bool" where
  "is_label_insert ev = (case fst ev of Db_insert_label a \<Rightarrow> True | _ \<Rightarrow> False)"

definition quiet :: "event list \<Rightarrow> bool" where
  "quiet seg = list_all (\<lambda>ev. \<not> is_label_insert ev) seg"

definition label_tx :: "int \<Rightarrow> event list \<Rightarrow> bool" where
  "label_tx a seg =
     list_all (\<lambda>ev. fst ev \<in> {Db_begin, Db_commit, Db_rollback, Db_insert_label a}) seg"

definition commits :: "int \<Rightarrow> event list \<Rightarrow> bool" where
  "commits a seg = (\<forall>st. a \<in> set (fst (foldl track st seg)))"

definition emits :: "(event list \<Rightarrow> bool) \<Rightarrow> world \<Rightarrow> world \<Rightarrow> bool" where
  "emits P w w' = (\<exists>seg. trace w' = trace w @ seg \<and> P seg)"

definition in_order :: "event list \<Rightarrow> bool" where
  "in_order seg = (\<forall>st. label_inserts_follow_commit st seg)"

section \<open>Properties\<close>

subsection \<open>What one call changes\<close>

lemma fault_at_tl: "fault_at n (tl fs) = fault_at (Suc n) fs"
  by (cases fs) (simp_all add: fault_at_def)

lemma db_call_fault_at:
  "db_call c w =
     (fault_at 0 (db_faults w),
      w\<lparr>db_faults := tl (db_faults w),
        trace := trace w @ [(c, fault_at 0 (db_faults w) = None)]\<rparr>)"
  by (cases "db_faults w") (simp_all add: db_call_def fault_at_def)

lemma s3_call_fault_at:
  "s3_call c w =
     (fault_at 0 (s3_faults w),
      w\<lparr>s3_faults := tl (s3_faults w),
        trace := trace w @ [(c, fault_at 0 (s3_faults w) = None)]\<rparr>)"
  by (cases "s3_faults w") (simp_all add: s3_call_def fault_at_def)

lemma pRetry_keeps:
  assumes "\<And>w. g (snd (f w)) = g w"
  shows "g (snd (pRetry n f w)) = g w"
proof (induction n arbitrary: w)
  case 0
  show ?case by (simp add: assms)
next
  case (Suc n)
  obtain r w' where fw: "f w = (r, w')" by (cases "f w")
  have "g w' = g w" using assms[of w] fw by simp
  then show ?case by (cases r) (simp_all add: fw Suc)
qed

lemma beginTransaction_eq:
  "beginTransaction w =
     (case fault_at 0 (db_faults w) of
        Some m \<Rightarrow>
          (Inl (Error m),
           w\<lparr>db_faults := tl (db_faults w), trace := trace w @ [(Db_begin, False)]\<rparr>)
      | None \<Rightarrow>
          (Inr (),
           w\<lparr>db_faults := tl (db_faults w), trace := trace w @ [(Db_begin, True)],
             tx_assets := [], tx_labels := []\<rparr>))"
  by (simp add: beginTransaction_def db_call_fault_at split: option.split)

lemma commit_eq:
  "commit w =
     (case fault_at 0 (db_faults w) of
        Some m \<Rightarrow>
          (Inl (Error m),
           w\<lparr>db_faults := tl (db_faults w), trace := trace w @ [(Db_commit, False)]\<rparr>)
      | None \<Rightarrow>
          (Inr (),
           w\<lparr>db_faults := tl (db_faults w), trace := trace w @ [(Db_commit, True)],
             assets := assets w @ tx_assets w, labels := labels w @ tx_labels w,
             tx_assets := [], tx_labels := []\<rparr>))"
  by (simp add: commit_def db_call_fault_at split: option.split)

lemma rollback_and_rethrow_eq:
  "rollback_and_rethrow e w =
     (Inl (case fault_at 0 (db_faults w) of Some m \<Rightarrow> Error m | None \<Rightarrow> e),
      w\<lparr>db_faults := tl (db_faults w),
        trace := trace w @ [(Db_rollback, fault_at 0 (db_faults w) = None)],
        tx_assets := [], tx_labels := []\<rparr>)"
  by (simp add: rollback_and_rethrow_def rollback_def db_call_fault_at split: option.split)

lemma execute_insert_label_eq:
  "execute_insert_label a name c w =
     (case fault_at 0 (db_faults w) of
        Some m \<Rightarrow>
          (Inl (Error m),
           w\<lparr>db_faults := tl (db_faults w), trace := trace w @ [(Db_insert_label a, False)]\<rparr>)
      | None \<Rightarrow>
          (Inr (),
           w\<lparr>db_faults := tl (db_faults w), trace := trace w @ [(Db_insert_label a, True)],
             tx_labels := tx_labels w @ [\<lparr>l_assetid = a, l_label = name, l_confidence = c\<rparr>]\<rparr>))"
  by (simp add: execute_insert_label_def db_call_fault_at split: option.split)

lemma pRetry_2:
  "pRetry 2 f w =
     (case f w of
        (Inr v, w1) \<Rightarrow> (Inr v, w1)
      | (Inl e, w1) \<Rightarrow>
          (case f w1 of
             (Inr v, w2) \<Rightarrow> (Inr v, w2)
           | (Inl e, w2) \<Rightarrow> f w2))"
proof -
  obtain r1 w1 where 1: "f w = (r1, w1)" by (cases "f w")
  obtain r2 w2 where 2: "f w1 = (r2, w2)" by (cases "f w1")
  show ?thesis
    by (cases r1; cases r2) (simp_all add: numeral_2_eq_2 1 2)
qed

lemma execute_insert_asset_eq:
  "execute_insert_asset userid fn key w =
     (case fault_at 0 (db_faults w) of
        Some m \<Rightarrow>
          (Inl (Error m),
           w\<lparr>db_faults := tl (db_faults w),
             trace := trace w @ [(Db_insert_asset (auto_increment w), False)]\<rparr>)
      | None \<Rightarrow>
          (Inr (auto_increment w),
           w\<lparr>db_faults := tl (db_faults w),
             trace := trace w @ [(Db_insert_asset (auto_increment w), True)],
             tx_assets := tx_assets w @
               [\<lparr>a_assetid = auto_increment w, a_userid = userid,
                 a_localname = fn, a_bucketkey = key\<rparr>],
             auto_increment := auto_increment w + 1\<rparr>))"
  by (simp add: execute_insert_asset_def db_call_fault_at split: option.split)

lemma fault_at_Nil: "fault_at n [] = None"
  by (simp add: fault_at_def)

subsection \<open>get /image_labels\<close>

lemma conn_open_labels_validate_assetid:
  "conn_open (snd (labels_validate_assetid a w)) = conn_open w"
  by (simp add: labels_validate_assetid_def execute_select_asset_def db_call_fault_at
      split: option.split)

lemma conn_open_fetch_labels:
  "conn_open (snd (fetch_labels a w)) = conn_open w"
  by (simp add: fetch_labels_def execute_select_labels_def db_call_fault_at
      split: option.split)

text \<open>
  C1. List Labels for an assetid that matches no asset row: the claim expects a 4xx
  status with the message "no such assetid" and no data. In the sample world, which has
  no asset 1002, the handler answers with that message and no data, and with status 500.
\<close>

theorem get_image_labels_unknown_assetid_status:
  "fst (get_image_labels ''1002'' example_world) =
     \<lparr>gl_status = 500, gl_message = ''no such assetid'', gl_data = []\<rparr>"
  by code_simp

text \<open>The same for every world and request: when no asset row has the id and the store
  answers the last of the three attempts of the lookup, the answer has status 500.\<close>

lemma labels_validate_assetid_unknown:
  assumes "filter (\<lambda>a. Some (a_assetid a) = assetid) (assets w) = []"
  shows "labels_validate_assetid assetid w =
     (Inl (case fault_at 0 (db_faults w) of
             None \<Rightarrow> Error ''no such assetid''
           | Some m \<Rightarrow> Error m),
      w\<lparr>db_faults := tl (db_faults w),
        trace := trace w @ [(Db_select, fault_at 0 (db_faults w) = None)]\<rparr>)"
  using assms
  by (cases "fault_at 0 (db_faults w)")
     (simp_all add: labels_validate_assetid_def execute_select_asset_def db_call_fault_at)

lemma get_image_labels_unknown_assetid:
  assumes "filter (\<lambda>a. Some (a_assetid a) = parseInt param) (assets w) = []"
    and "fault_at 2 (db_faults w) = None"
  shows "fst (get_image_labels param w) =
           \<lparr>gl_status = 500, gl_message = ''no such assetid'', gl_data = []\<rparr>"
proof -
  have f2: "fault_at 0 (tl (tl (db_faults w))) = fault_at 2 (db_faults w)"
    by (simp add: fault_at_tl numeral_2_eq_2)
  have "fst (pRetry 2 (labels_validate_assetid (parseInt param)) (get_dbConn w)) =
          Inl (Error ''no such assetid'')"
    using assms
    by (simp add: pRetry_2 labels_validate_assetid_unknown get_dbConn_def f2)
  then show ?thesis
    by (cases "pRetry 2 (labels_validate_assetid (parseInt param)) (get_dbConn w)")
      (simp add: get_image_labels_def get_image_labels_try_def)
qed

text \<open>
  C6. The connection acquired at request entry is to be closed when the request
  concludes. The List Labels handler never closes it: whatever the request and the
  world, the connection is open when the handler is done.
\<close>

theorem get_image_labels_leaves_connection_open:
  "conn_open (snd (get_image_labels param w))"
proof -
  let ?w = "get_dbConn w"
  let ?a = "parseInt param"
  obtain r1 w1 where 1: "pRetry 2 (labels_validate_assetid ?a) ?w = (r1, w1)"
    by (cases "pRetry 2 (labels_validate_assetid ?a) ?w")
  obtain r2 w2 where 2: "pRetry 2 (fetch_labels ?a) w1 = (r2, w2)"
    by (cases "pRetry 2 (fetch_labels ?a) w1")
  have c1: "conn_open w1"
    using pRetry_keeps[of conn_open "labels_validate_assetid ?a" 2 ?w,
        OF conn_open_labels_validate_assetid] 1
    by (simp add: get_dbConn_def)
  have c2: "conn_open w2"
    using pRetry_keeps[of conn_open "fetch_labels ?a" 2 w1, OF conn_open_fetch_labels] 2 c1
    by simp
  have "conn_open (snd (get_image_labels_try param ?w))"
    by (cases r1) (simp_all add: get_image_labels_try_def 1 2 c1 c2)
  then show ?thesis
    by (cases "get_image_labels_try param ?w"; cases "fst (get_image_labels_try param ?w)")
       (simp_all add: get_image_labels_def)
qed

text \<open>The sibling handlers close the connection on every path.\<close>

lemma post_image_closes_connection: "\<not> conn_open (snd (post_image request w))"
  by (cases "post_image_try request (get_dbConn w)";
      cases "fst (post_image_try request (get_dbConn w))")
    (simp_all add: post_image_def dbConn_end_def)

lemma get_image_closes_connection: "\<not> conn_open (snd (get_image param w))"
  by (cases "get_image_try param (get_dbConn w)";
      cases "fst (get_image_try param (get_dbConn w))")
    (auto simp: get_image_def dbConn_end_def)

lemma delete_images_closes_connection: "\<not> conn_open (snd (delete_images w))"
  by (cases "delete_images_try (get_dbConn w)";
      cases "fst (delete_images_try (get_dbConn w))")
    (simp_all add: delete_images_def dbConn_end_def)

text \<open>List Labels in an environment without failures, for an id with one asset row.\<close>

lemma get_image_labels_answered:
  assumes "db_faults w = []"
    and "parseInt param = Some a"
    and "filter (\<lambda>r. a_assetid r = a) (assets w) = [row]"
  shows "fst (get_image_labels param w) =
           \<lparr>gl_status = 200, gl_message = ''success'',
             gl_data = map (\<lambda>r. (l_label r, l_confidence r))
                         (sort_key l_label (filter (\<lambda>l. l_assetid l = a) (labels w)))\<rparr>"
  using assms
  by (simp add: get_image_labels_def get_image_labels_try_def pRetry_2
      labels_validate_assetid_def execute_select_asset_def fetch_labels_def
      execute_select_labels_def db_call_fault_at get_dbConn_def fault_at_Nil)

subsection \<open>get /image\<close>

text \<open>
  C10. A Retrieve request whose assetid parameter does not parse as a number
  (\<^verbatim>\<open>parseInt\<close> gives \<^verbatim>\<open>NaN\<close>) is answered with status 500, userid -1 and the message
  "get_image: assetid is not numeric". The world afterwards is the world before with the
  connection closed: no statement was sent to the relational store and no command to the
  object store (the trace and the scripts are as before).
\<close>

theorem get_image_not_numeric:
  "parseInt param = None \<Longrightarrow>
   get_image param w =
     (\<lparr>gi_status = 500, gi_message = ''get_image: assetid is not numeric'',
       gi_userid = - 1, gi_local_filename = None, gi_data = None\<rparr>,
      w\<lparr>conn_open := False\<rparr>)"
  by (simp add: get_image_def get_image_try_def get_dbConn_def dbConn_end_def)

lemma parseInt_abc: "parseInt ''abc'' = None"
  by code_simp

theorem get_image_not_numeric_witness:
  "parseInt ''abc'' = None \<and>
   get_image ''abc'' example_world =
     (\<lparr>gi_status = 500, gi_message = ''get_image: assetid is not numeric'',
       gi_userid = - 1, gi_local_filename = None, gi_data = None\<rparr>,
      example_world\<lparr>conn_open := False\<rparr>)"
  using get_image_not_numeric[of "''abc''" example_world] parseInt_abc by simp

text \<open>Retrieve in an environment without failures.\<close>

lemma get_image_answered:
  assumes "db_faults w = []"
    and "s3_faults w = []"
    and "parseInt param = Some a"
    and "filter (\<lambda>r. a_assetid r = a) (assets w) = [row]"
    and "bucket w (a_bucketkey row) = Some img"
  shows "fst (get_image param w) =
           \<lparr>gi_status = 200, gi_message = ''success'', gi_userid = a_userid row,
             gi_local_filename = Some (a_localname row), gi_data = Some img\<rparr>"
  using assms
  by (simp add: get_image_def get_image_try_def pRetry_2 validate_assetid_def
      execute_select_asset_def download_image_str_def db_call_fault_at s3_call_fault_at
      get_dbConn_def fault_at_Nil)

subsection \<open>post /image: an unknown owner\<close>

lemma lookup_user_unknown:
  assumes "filter (\<lambda>u. u_userid u = userid) (users w) = []"
  shows "lookup_user userid w =
     (Inl (case fault_at 0 (db_faults w) of
             None \<Rightarrow> ValueError ''no such userid''
           | Some m \<Rightarrow> Error m),
      w\<lparr>db_faults := tl (db_faults w),
        trace := trace w @ [(Db_select, fault_at 0 (db_faults w) = None)]\<rparr>)"
  using assms
  by (cases "fault_at 0 (db_faults w)")
     (simp_all add: lookup_user_def execute_select_username_def db_call_fault_at)

lemma pRetry_lookup_user_unknown:
  assumes "filter (\<lambda>u. u_userid u = userid) (users w) = []"
  shows "pRetry 2 (lookup_user userid) w =
     (Inl (case fault_at 2 (db_faults w) of
             None \<Rightarrow> ValueError ''no such userid''
           | Some m \<Rightarrow> Error m),
      w\<lparr>db_faults := drop 3 (db_faults w),
        trace := trace w @
          [(Db_select, fault_at 0 (db_faults w) = None),
           (Db_select, fault_at 1 (db_faults w) = None),
           (Db_select, fault_at 2 (db_faults w) = None)]\<rparr>)"
proof -
  have d: "tl (tl (tl (db_faults w))) = drop 3 (db_faults w)"
    by (simp add: numeral_3_eq_3 drop_Suc)
  have f2: "fault_at 0 (tl (tl (db_faults w))) = fault_at 2 (db_faults w)"
    by (simp add: fault_at_tl numeral_2_eq_2)
  have f1: "fault_at 0 (tl (db_faults w)) = fault_at 1 (db_faults w)"
    by (simp add: fault_at_tl)
  show ?thesis
    by (simp add: pRetry_2 lookup_user_unknown assms d f1 f2 del: One_nat_def)
qed

text \<open>
  C3. An upload whose owner id matches no user row is to be answered with status 400 and
  the message "no such userid". The lookup throws its \<^verbatim>\<open>ValueError\<close> inside the retry
  wrapper, which runs it again: in the sample world with a store that answers two calls
  and fails the third, the owner id 999999 matches no user row, the lookup finds no row
  and raises "no such userid", and the upload is answered with status 500 and the message
  of the failed third attempt.
\<close>

theorem post_image_unknown_userid_failed_retry:
  "filter (\<lambda>u. u_userid u = pi_userid unknown_owner_upload)
     (users lookup_retry_failure_world) = [] \<and>
   fst (lookup_user (pi_userid unknown_owner_upload) (get_dbConn lookup_retry_failure_world)) =
     Inl (ValueError ''no such userid'') \<and>
   fst (post_image unknown_owner_upload lookup_retry_failure_world) =
     \<lparr>pi_status = 500, pi_message = ''gone away'', pi_assetid = - 1\<rparr>"
proof -
  have 1: "filter (\<lambda>u. u_userid u = pi_userid unknown_owner_upload)
     (users lookup_retry_failure_world) = []"
    by (simp add: unknown_owner_upload_def lookup_retry_failure_world_def example_world_def)
  have 2: "fst (lookup_user (pi_userid unknown_owner_upload)
      (get_dbConn lookup_retry_failure_world)) = Inl (ValueError ''no such userid'')"
    by code_simp
  have 3: "fst (post_image unknown_owner_upload lookup_retry_failure_world) =
     \<lparr>pi_status = 500, pi_message = ''gone away'', pi_assetid = - 1\<rparr>"
    by code_simp
  show ?thesis using 1 2 3 by simp
qed

text \<open>
  What holds for every world and every failure script when the owner id matches no user
  row: the three attempts of the lookup are the only calls, the asset and label tables
  and the object store are as before, and the connection is closed. The response is
  status 400 with "no such userid" exactly when the store answers the last attempt.
\<close>

lemma post_image_unknown_userid:
  assumes "filter (\<lambda>u. u_userid u = pi_userid request) (users w) = []"
  shows "snd (post_image request w) =
           w\<lparr>conn_open := False, db_faults := drop 3 (db_faults w),
             trace := trace w @
               [(Db_select, fault_at 0 (db_faults w) = None),
                (Db_select, fault_at 1 (db_faults w) = None),
                (Db_select, fault_at 2 (db_faults w) = None)]\<rparr>
       \<and> assets (snd (post_image request w)) = assets w
       \<and> labels (snd (post_image request w)) = labels w
       \<and> bucket (snd (post_image request w)) = bucket w
       \<and> (fault_at 2 (db_faults w) = None \<longrightarrow>
            fst (post_image request w) =
              \<lparr>pi_status = 400, pi_message = ''no such userid'', pi_assetid = - 1\<rparr>)"
  by (cases "fault_at 2 (db_faults w)")
    (simp_all add: post_image_def post_image_try_def Let_def pRetry_lookup_user_unknown assms
      get_dbConn_def dbConn_end_def)


lemma post_image_unknown_userid_example:
  "filter (\<lambda>u. u_userid u = 999999) (users example_world) = [] \<and>
   fault_at 2 (db_faults example_world) = None \<and>
   fst (post_image \<lparr>pi_userid = 999999, pi_local_filename = ''cat.jpg'', pi_data = ''BBBB''\<rparr>
          example_world) =
     \<lparr>pi_status = 400, pi_message = ''no such userid'', pi_assetid = - 1\<rparr> \<and>
   assets (snd (post_image
       \<lparr>pi_userid = 999999, pi_local_filename = ''cat.jpg'', pi_data = ''BBBB''\<rparr>
       example_world)) = assets example_world \<and>
   labels (snd (post_image
       \<lparr>pi_userid = 999999, pi_local_filename = ''cat.jpg'', pi_data = ''BBBB''\<rparr>
       example_world)) = labels example_world \<and>
   bucket (snd (post_image
       \<lparr>pi_userid = 999999, pi_local_filename = ''cat.jpg'', pi_data = ''BBBB''\<rparr>
       example_world)) = bucket example_world"
proof -
  have h: "filter (\<lambda>u. u_userid u = 999999) (users example_world) = []"
    by (simp add: example_world_def)
  have f: "fault_at 2 (db_faults example_world) = None"
    by (simp add: example_world_def fault_at_def)
  show ?thesis
    using post_image_unknown_userid
      [of "\<lparr>pi_userid = 999999, pi_local_filename = ''cat.jpg'', pi_data = ''BBBB''\<rparr>"
        example_world] h f
    by simp
qed

subsection \<open>post /image: persisting the labels\<close>

lemma insert_labels_effect:
  "assets (snd (insert_labels a ls w)) = assets w \<and>
   labels (snd (insert_labels a ls w)) = labels w \<and>
   tx_assets (snd (insert_labels a ls w)) = tx_assets w \<and>
   auto_increment (snd (insert_labels a ls w)) = auto_increment w \<and>
   outside_db (snd (insert_labels a ls w)) = outside_db w \<and>
   (\<forall>u. fst (insert_labels a ls w) = Inr u \<longrightarrow>
      tx_labels (snd (insert_labels a ls w)) = tx_labels w @ label_rows a ls)"
proof (induction ls arbitrary: w)
  case Nil
  show ?case by (simp add: label_rows_def)
next
  case (Cons l ls)
  show ?case
  proof (cases "fault_at 0 (db_faults w)")
    case (Some m)
    then show ?thesis
      by (simp add: execute_insert_label_eq outside_db_def)
  next
    case None
    let ?w1 = "w\<lparr>db_faults := tl (db_faults w),
                  trace := trace w @ [(Db_insert_label a, True)],
                  tx_labels := tx_labels w @
                    [\<lparr>l_assetid = a, l_label = Name l, l_confidence = \<lfloor>Confidence l\<rfloor>\<rparr>]\<rparr>"
    have step: "insert_labels a (l # ls) w = insert_labels a ls ?w1"
      using None by (simp add: execute_insert_label_eq)
    show ?thesis
      unfolding step using Cons[of ?w1]
      by (simp add: label_rows_def outside_db_def)
  qed
qed

lemma update_labels_effect:
  "assets (snd (update_labels a ls w)) = assets w \<and>
   auto_increment (snd (update_labels a ls w)) = auto_increment w \<and>
   outside_db (snd (update_labels a ls w)) = outside_db w \<and>
   (case fst (update_labels a ls w) of
      Inr u \<Rightarrow> labels (snd (update_labels a ls w)) = labels w @ label_rows a ls
                \<and> tx_labels (snd (update_labels a ls w)) = []
    | Inl e \<Rightarrow> labels (snd (update_labels a ls w)) = labels w
                \<and> (tx_labels (snd (update_labels a ls w)) = []
                    \<or> tx_labels (snd (update_labels a ls w)) = tx_labels w))"
proof (cases "fault_at 0 (db_faults w)")
  case (Some m)
  then show ?thesis
    by (simp add: update_labels_def beginTransaction_eq outside_db_def)
next
  case None
  let ?w1 = "w\<lparr>db_faults := tl (db_faults w), trace := trace w @ [(Db_begin, True)],
                tx_assets := [], tx_labels := []\<rparr>"
  obtain r w2 where il: "insert_labels a ls ?w1 = (r, w2)"
    by (cases "insert_labels a ls ?w1")
  note eff = insert_labels_effect[of a ls ?w1, unfolded il, simplified]
  show ?thesis
  proof (cases r)
    case (Inl e)
    then show ?thesis
      using None eff
      by (simp add: update_labels_def beginTransaction_eq il rollback_and_rethrow_eq
          outside_db_def)
  next
    case (Inr u)
    then show ?thesis
      using None eff
      by (cases "fault_at 0 (db_faults w2)")
        (simp_all add: update_labels_def beginTransaction_eq il rollback_and_rethrow_eq
          commit_eq outside_db_def)
  qed
qed

lemma pRetry_update_labels_effect:
  "assets (snd (pRetry n (update_labels a ls) w)) = assets w \<and>
   (case fst (pRetry n (update_labels a ls) w) of
      Inr u \<Rightarrow> labels (snd (pRetry n (update_labels a ls) w)) = labels w @ label_rows a ls
                \<and> tx_labels (snd (pRetry n (update_labels a ls) w)) = []
    | Inl e \<Rightarrow> labels (snd (pRetry n (update_labels a ls) w)) = labels w
                \<and> (tx_labels (snd (pRetry n (update_labels a ls) w)) = []
                    \<or> tx_labels (snd (pRetry n (update_labels a ls) w)) = tx_labels w))"
proof (induction n arbitrary: w)
  case 0
  obtain r w1 where 1: "update_labels a ls w = (r, w1)" by (cases "update_labels a ls w")
  note eff = update_labels_effect[of a ls w, unfolded 1, simplified]
  show ?case using eff by (cases r) (simp_all add: 1)
next
  case (Suc n)
  obtain r w1 where 1: "update_labels a ls w = (r, w1)" by (cases "update_labels a ls w")
  note eff = update_labels_effect[of a ls w, unfolded 1, simplified]
  show ?case
  proof (cases r)
    case (Inr u)
    then show ?thesis using eff by (simp add: 1)
  next
    case (Inl e)
    obtain r2 w2 where 2: "pRetry n (update_labels a ls) w1 = (r2, w2)"
      by (cases "pRetry n (update_labels a ls) w1")
    note ih = Suc[of w1, unfolded 2, simplified]
    show ?thesis
      using Inl eff ih by (cases r2) (auto simp: 1 2)
  qed
qed

lemma no_fault_0: "no_fault 0 fs"
  by (simp add: no_fault_def)

lemma no_fault_Suc: "no_fault (Suc n) fs = (fault_at 0 fs = None \<and> no_fault n (tl fs))"
  by (cases fs) (simp_all add: no_fault_def fault_at_def)

lemma no_fault_add: "no_fault (m + n) fs = (no_fault m fs \<and> no_fault n (drop m fs))"
  by (simp add: no_fault_def take_add)

lemma insert_labels_no_fault:
  assumes "no_fault (length ls) (db_faults w)"
  shows "insert_labels a ls w =
     (Inr (),
      w\<lparr>db_faults := drop (length ls) (db_faults w),
        trace := trace w @ map (\<lambda>l. (Db_insert_label a, True)) ls,
        tx_labels := tx_labels w @ label_rows a ls\<rparr>)"
  using assms
proof (induction ls arbitrary: w)
  case Nil
  show ?case by (simp add: label_rows_def)
next
  case (Cons l ls)
  let ?w1 = "w\<lparr>db_faults := tl (db_faults w),
                trace := trace w @ [(Db_insert_label a, True)],
                tx_labels := tx_labels w @
                  [\<lparr>l_assetid = a, l_label = Name l, l_confidence = \<lfloor>Confidence l\<rfloor>\<rparr>]\<rparr>"
  have ok: "fault_at 0 (db_faults w) = None" and rest: "no_fault (length ls) (db_faults ?w1)"
    using Cons.prems by (simp_all add: no_fault_Suc)
  have step: "insert_labels a (l # ls) w = insert_labels a ls ?w1"
    using ok by (simp add: execute_insert_label_eq)
  show ?case
    unfolding step Cons.IH[OF rest]
    by (simp add: label_rows_def drop_Suc)
qed

lemma insert_labels_fault:
  assumes "\<not> no_fault (length ls) (db_faults w)"
  shows "\<exists>e. fst (insert_labels a ls w) = Inl e"
  using assms
proof (induction ls arbitrary: w)
  case Nil
  then show ?case by (simp add: no_fault_0)
next
  case (Cons l ls)
  show ?case
  proof (cases "fault_at 0 (db_faults w)")
    case (Some m)
    then show ?thesis by (simp add: execute_insert_label_eq)
  next
    case None
    let ?w1 = "w\<lparr>db_faults := tl (db_faults w),
                  trace := trace w @ [(Db_insert_label a, True)],
                  tx_labels := tx_labels w @
                    [\<lparr>l_assetid = a, l_label = Name l, l_confidence = \<lfloor>Confidence l\<rfloor>\<rparr>]\<rparr>"
    have rest: "\<not> no_fault (length ls) (db_faults ?w1)"
      using Cons.prems None by (simp add: no_fault_Suc)
    have step: "insert_labels a (l # ls) w = insert_labels a ls ?w1"
      using None by (simp add: execute_insert_label_eq)
    show ?thesis unfolding step by (rule Cons.IH[OF rest])
  qed
qed

lemma no_fault_update_labels:
  "no_fault (Suc (Suc n)) fs =
     (fault_at 0 fs = None \<and> no_fault n (tl fs) \<and> fault_at 0 (drop n (tl fs)) = None)"
proof -
  have "no_fault (Suc (Suc n)) fs = (fault_at 0 fs = None \<and> no_fault (n + 1) (tl fs))"
    using no_fault_Suc[of "Suc n" fs] by simp
  also have "no_fault (n + 1) (tl fs) = (no_fault n (tl fs) \<and> no_fault 1 (drop n (tl fs)))"
    by (rule no_fault_add)
  also have "no_fault 1 (drop n (tl fs)) = (fault_at 0 (drop n (tl fs)) = None)"
    using no_fault_Suc[of 0 "drop n (tl fs)"] by (simp add: no_fault_0)
  finally show ?thesis .
qed

text \<open>One attempt, told from the failure script.\<close>

lemma update_labels_run:
  "(fst (update_labels a ls w) = Inr ()) = no_fault (length ls + 2) (db_faults w) \<and>
   labels (snd (update_labels a ls w)) =
     (if no_fault (length ls + 2) (db_faults w) then labels w @ label_rows a ls
      else labels w) \<and>
   tx_labels (snd (update_labels a ls w)) =
     (if fault_at 0 (db_faults w) = None then [] else tx_labels w) \<and>
   (if no_fault (length ls + 2) (db_faults w)
    then trace (snd (update_labels a ls w)) =
           trace w @ (Db_begin, True) # map (\<lambda>l. (Db_insert_label a, True)) ls @
             [(Db_commit, True)]
    else if fault_at 0 (db_faults w) = None
    then fst (last (trace (snd (update_labels a ls w)))) = Db_rollback
    else trace (snd (update_labels a ls w)) = trace w @ [(Db_begin, False)])"
proof (cases "fault_at 0 (db_faults w)")
  case (Some m)
  then show ?thesis
    by (simp add: update_labels_def beginTransaction_eq no_fault_update_labels)
next
  case None
  let ?w1 = "w\<lparr>db_faults := tl (db_faults w), trace := trace w @ [(Db_begin, True)],
                tx_assets := [], tx_labels := []\<rparr>"
  show ?thesis
  proof (cases "no_fault (length ls) (tl (db_faults w))")
    case False
    then have "\<not> no_fault (length ls) (db_faults ?w1)" by simp
    from insert_labels_fault[OF this, of a] obtain e where
      "fst (insert_labels a ls ?w1) = Inl e" by blast
    then obtain w2 where il: "insert_labels a ls ?w1 = (Inl e, w2)"
      by (cases "insert_labels a ls ?w1") simp
    have lab: "labels w2 = labels w"
      using insert_labels_effect[of a ls ?w1] by (simp add: il)
    show ?thesis
      using None False lab
      by (simp add: update_labels_def beginTransaction_eq il rollback_and_rethrow_eq
          no_fault_update_labels)
  next
    case True
    then have ok: "no_fault (length ls) (db_faults ?w1)" by simp
    note il = insert_labels_no_fault[OF ok, of a]
    show ?thesis
      using None True
      by (cases "fault_at 0 (drop (length ls) (tl (db_faults w)))")
        (simp_all add: update_labels_def beginTransaction_eq il rollback_and_rethrow_eq
          commit_eq no_fault_update_labels)
  qed
qed

lemma pRetry_update_labels_fault:
  assumes "fst (pRetry 2 (update_labels a ls) w) = Inl e"
  shows "\<not> no_fault (length ls + 2) (db_faults w)"
proof
  assume "no_fault (length ls + 2) (db_faults w)"
  then have "fst (update_labels a ls w) = Inr ()"
    using update_labels_run[of a ls w] by simp
  then obtain w1 where "update_labels a ls w = (Inr (), w1)"
    by (cases "update_labels a ls w") simp
  then have "fst (pRetry 2 (update_labels a ls) w) = Inr ()"
    by (simp add: pRetry_2)
  then show False using assms by simp
qed

text \<open>
  C7. Label persistence is all or nothing. One attempt of \<^verbatim>\<open>update_labels\<close> makes, for a
  batch of n labels, up to n + 2 calls of the store (begin, n inserts, commit). It
  succeeds exactly when none of them fails; then the label table has grown by exactly the
  rows of the batch, and the calls were one begin, the n inserts and one commit. When one
  of them fails, the label table is as before, and unless it was the begin that failed
  the last call is the rollback and no row is pending. The asset table is as before in
  every case. The step as the pipeline runs it (with two retries) either succeeds, with
  exactly the rows of the batch added, or fails, with the label table as before and no
  row of the batch pending; it fails only if a call of the first attempt failed.
\<close>

theorem update_labels_all_or_nothing:
  "(fst (update_labels assetid rkg_labels w) = Inr ()) =
     no_fault (length rkg_labels + 2) (db_faults w) \<and>
   labels (snd (update_labels assetid rkg_labels w)) =
     (if no_fault (length rkg_labels + 2) (db_faults w)
      then labels w @ label_rows assetid rkg_labels else labels w) \<and>
   assets (snd (update_labels assetid rkg_labels w)) = assets w \<and>
   tx_labels (snd (update_labels assetid rkg_labels w)) =
     (if fault_at 0 (db_faults w) = None then [] else tx_labels w) \<and>
   (if no_fault (length rkg_labels + 2) (db_faults w)
    then trace (snd (update_labels assetid rkg_labels w)) =
           trace w @ (Db_begin, True) # map (\<lambda>l. (Db_insert_label assetid, True)) rkg_labels @
             [(Db_commit, True)]
    else if fault_at 0 (db_faults w) = None
    then fst (last (trace (snd (update_labels assetid rkg_labels w)))) = Db_rollback
    else trace (snd (update_labels assetid rkg_labels w)) = trace w @ [(Db_begin, False)]) \<and>
   (case pRetry 2 (update_labels assetid rkg_labels) w of
      (Inr u, w') \<Rightarrow>
        labels w' = labels w @ label_rows assetid rkg_labels \<and> tx_labels w' = [] \<and>
        assets w' = assets w
    | (Inl e, w') \<Rightarrow>
        labels w' = labels w \<and> (tx_labels w' = [] \<or> tx_labels w' = tx_labels w) \<and>
        assets w' = assets w \<and> \<not> no_fault (length rkg_labels + 2) (db_faults w))"
proof -
  obtain r2 w2 where 2: "pRetry 2 (update_labels assetid rkg_labels) w = (r2, w2)"
    by (cases "pRetry 2 (update_labels assetid rkg_labels) w")
  note run = update_labels_run[of assetid rkg_labels w]
  have a1: "assets (snd (update_labels assetid rkg_labels w)) = assets w"
    using update_labels_effect[of assetid rkg_labels w] by simp
  note e2 = pRetry_update_labels_effect[of 2 assetid rkg_labels w, unfolded 2, simplified]
  have p2: "case pRetry 2 (update_labels assetid rkg_labels) w of
      (Inr u, w') \<Rightarrow>
        labels w' = labels w @ label_rows assetid rkg_labels \<and> tx_labels w' = [] \<and>
        assets w' = assets w
    | (Inl e, w') \<Rightarrow>
        labels w' = labels w \<and> (tx_labels w' = [] \<or> tx_labels w' = tx_labels w) \<and>
        assets w' = assets w \<and> \<not> no_fault (length rkg_labels + 2) (db_faults w)"
  proof (cases r2)
    case (Inr u)
    then show ?thesis using e2 by (simp add: 2)
  next
    case (Inl e)
    have "\<not> no_fault (length rkg_labels + 2) (db_faults w)"
      by (rule pRetry_update_labels_fault[of assetid rkg_labels w e]) (simp add: 2 Inl)
    then show ?thesis using e2 Inl by (simp add: 2)
  qed
  show ?thesis
    using run a1 p2 by (intro conjI) blast+
qed

theorem update_labels_all_or_nothing_witness:
  "no_fault (length boat_labels + 2) (db_faults example_world) \<and>
   fst (update_labels 1001 boat_labels example_world) = Inr () \<and>
   labels (snd (update_labels 1001 boat_labels example_world)) =
     labels example_world @
       [\<lparr>l_assetid = 1001, l_label = ''Sailboat'', l_confidence = 99\<rparr>,
        \<lparr>l_assetid = 1001, l_label = ''Boat'', l_confidence = 91\<rparr>] \<and>
   trace (snd (update_labels 1001 boat_labels example_world)) =
     [(Db_begin, True), (Db_insert_label 1001, True), (Db_insert_label 1001, True),
      (Db_commit, True)] \<and>
   \<not> no_fault (length boat_labels + 2) (db_faults insert_failure_world) \<and>
   fault_at 0 (db_faults insert_failure_world) = None \<and>
   labels (snd (update_labels 1001 boat_labels insert_failure_world)) =
     labels insert_failure_world \<and>
   tx_labels (snd (update_labels 1001 boat_labels insert_failure_world)) = [] \<and>
   fst (last (trace (snd (update_labels 1001 boat_labels insert_failure_world)))) = Db_rollback"
proof -
  have ok: "no_fault (length boat_labels + 2) (db_faults example_world)"
    by (simp add: no_fault_def example_world_def)
  have bad: "\<not> no_fault (length boat_labels + 2) (db_faults insert_failure_world)"
    by (simp add: no_fault_def insert_failure_world_def boat_labels_def)
  have beg: "fault_at 0 (db_faults insert_failure_world) = None"
    by (simp add: fault_at_def insert_failure_world_def)
  have rows: "label_rows 1001 boat_labels =
       [\<lparr>l_assetid = 1001, l_label = ''Sailboat'', l_confidence = 99\<rparr>,
        \<lparr>l_assetid = 1001, l_label = ''Boat'', l_confidence = 91\<rparr>]"
    by (simp add: label_rows_def boat_labels_def)
  have evs: "map (\<lambda>l. (Db_insert_label (1001::int), True)) boat_labels =
      [(Db_insert_label 1001, True), (Db_insert_label 1001, True)]"
    by (simp add: boat_labels_def)
  have tr: "trace example_world = []"
    by (simp add: example_world_def)
  show ?thesis
    using update_labels_all_or_nothing[of 1001 boat_labels example_world]
      update_labels_all_or_nothing[of 1001 boat_labels insert_failure_world]
      ok bad beg
    by (simp add: rows evs tr)
qed

subsection \<open>get /images\<close>

lemmas parseInt_unfold =
  parseInt_def strip_sign_def strip_prefix_def digit_value_def is_white_space_def Let_def

lemma parseInt_empty: "parseInt [] = None"
  by code_simp

lemma try_get_images_positive:
  assumes "0 < userid"
  shows "try_get_images userid w =
     (case fault_at 0 (db_faults w) of
        Some m \<Rightarrow> Inl (Error m)
      | None \<Rightarrow> Inr (sort_key a_assetid (filter (\<lambda>a. a_userid a = userid) (assets w))),
      w\<lparr>conn_open := False, db_faults := tl (db_faults w),
        trace := trace w @ [(Db_select, fault_at 0 (db_faults w) = None)]\<rparr>)"
  using assms
  by (cases "fault_at 0 (db_faults w)")
    (simp_all add: try_get_images_def execute_select_assets_def db_call_fault_at
      get_dbConn_def dbConn_end_def)

text \<open>
  C8. List Assets with an owner filter that matches no asset record is to return success
  with an empty list. A negative filter does not add the Where clause
  (\<^verbatim>\<open>if ( userid >= 0 )\<close>), although it is passed as the parameter: in the sample world
  the filter -5, the owner of no asset, is answered with every asset.
\<close>

theorem get_images_negative_userid_lists_every_asset:
  "parseInt ''-5'' = Some (- 5) \<and>
   filter (\<lambda>a. a_userid a = - 5) (assets example_world) = [] \<and>
   fst (get_images (Some ''-5'') example_world) =
     \<lparr>gs_status = 200, gs_message = ''success'',
       gs_data = [\<lparr>a_assetid = 1001, a_userid = 80001, a_localname = ''dog.jpg'',
                   a_bucketkey = ''p_sarkar/u0-dog.jpg''\<rparr>]\<rparr>"
proof -
  have 1: "parseInt ''-5'' = Some (- 5)"
    by (simp add: parseInt_unfold)
  have 2: "filter (\<lambda>a. a_userid a = - 5) (assets example_world) = []"
    by (simp add: example_world_def)
  have 3: "fst (get_images (Some ''-5'') example_world) =
     \<lparr>gs_status = 200, gs_message = ''success'',
       gs_data = [\<lparr>a_assetid = 1001, a_userid = 80001, a_localname = ''dog.jpg'',
                   a_bucketkey = ''p_sarkar/u0-dog.jpg''\<rparr>]\<rparr>"
    by code_simp
  show ?thesis using 1 2 3 by simp
qed

text \<open>The owner id 0 and a filter that is not a number are answered with status 500.\<close>

lemma get_images_userid_zero:
  "fst (get_images (Some ''0'') example_world) =
     \<lparr>gs_status = 500, gs_message = ''Incorrect arguments to mysqld_stmt_execute'',
       gs_data = []\<rparr>"
  by code_simp

lemma get_images_userid_not_numeric:
  "fst (get_images (Some ''abc'') example_world) =
     \<lparr>gs_status = 500, gs_message = ''get_images(): userid is not numeric'', gs_data = []\<rparr>"
  by code_simp

text \<open>
  Where the handler does what its description says: when the owner filter parses to a
  positive number that is the owner of no asset record, and the store answers one of the
  three attempts of the query, the response is success with an empty list.
\<close>

lemma get_images_unknown_positive_userid:
  assumes "parseInt query_userid = Some userid"
    and "0 < userid"
    and "filter (\<lambda>a. a_userid a = userid) (assets w) = []"
    and "fault_at 0 (db_faults w) = None \<or> fault_at 1 (db_faults w) = None
         \<or> fault_at 2 (db_faults w) = None"
  shows "fst (get_images (Some query_userid) w) =
           \<lparr>gs_status = 200, gs_message = ''success'', gs_data = []\<rparr>"
proof -
  have ne: "query_userid \<noteq> []"
    using assms(1) parseInt_empty by auto
  have f1: "fault_at 0 (tl (db_faults w)) = fault_at 1 (db_faults w)"
    by (simp add: fault_at_tl)
  have f2: "fault_at 0 (tl (tl (db_faults w))) = fault_at 2 (db_faults w)"
    by (simp add: fault_at_tl numeral_2_eq_2)
  have "fst (pRetry 2 (try_get_images userid) w) = Inr []"
    using assms(3,4)
    by (cases "fault_at 0 (db_faults w)"; cases "fault_at 1 (db_faults w)";
        cases "fault_at 2 (db_faults w)")
      (simp_all add: pRetry_2 try_get_images_positive[OF assms(2)] f1 f2 del: One_nat_def)
  then show ?thesis
    using ne assms(1)
    by (cases "pRetry 2 (try_get_images userid) w")
      (simp add: get_images_def get_images_try_def)
qed

lemma get_images_unknown_positive_userid_example:
  "parseInt ''80002'' = Some 80002 \<and> (0::int) < 80002 \<and>
   filter (\<lambda>a. a_userid a = 80002) (assets example_world) = [] \<and>
   fault_at 0 (db_faults example_world) = None \<and>
   fst (get_images (Some ''80002'') example_world) =
     \<lparr>gs_status = 200, gs_message = ''success'', gs_data = []\<rparr>"
proof -
  have h1: "parseInt ''80002'' = Some 80002"
    by (simp add: parseInt_unfold)
  have h2: "(0::int) < 80002" by simp
  have h3: "filter (\<lambda>a. a_userid a = 80002) (assets example_world) = []"
    by (simp add: example_world_def)
  have h4: "fault_at 0 (db_faults example_world) = None"
    by (simp add: example_world_def fault_at_def)
  show ?thesis
    using get_images_unknown_positive_userid[OF h1 h2 h3 disjI1[OF h4]] h1 h3 h4 by simp
qed

text \<open>The unfiltered list in an environment without failures.\<close>

lemma get_images_answered:
  assumes "db_faults w = []"
  shows "fst (get_images None w) =
           \<lparr>gs_status = 200, gs_message = ''success'',
             gs_data = sort_key a_assetid (assets w)\<rparr>"
  using assms
  by (simp add: get_images_def get_images_try_def pRetry_2 try_get_images_def
      execute_select_assets_def db_call_fault_at get_dbConn_def dbConn_end_def fault_at_Nil)

subsection \<open>delete /images\<close>

lemma get_keys_eq:
  "get_keys w =
     (case fault_at 0 (db_faults w) of
        Some m \<Rightarrow> Inl (Error m)
      | None \<Rightarrow> Inr (map a_bucketkey (assets w)),
      w\<lparr>db_faults := tl (db_faults w),
        trace := trace w @ [(Db_select, fault_at 0 (db_faults w) = None)]\<rparr>)"
  by (simp add: get_keys_def db_call_fault_at split: option.split)

lemma get_keys_bucket: "bucket (snd (get_keys w)) = bucket w"
  by (simp add: get_keys_eq)

lemma execute_clause_eq:
  "execute_clause c w =
     (case fault_at 0 (db_faults w) of
        Some m \<Rightarrow>
          (Inl (Error m),
           w\<lparr>db_faults := tl (db_faults w), trace := trace w @ [(Db_statement, False)]\<rparr>)
      | None \<Rightarrow>
          (Inr (),
           apply_clause c
             (w\<lparr>db_faults := tl (db_faults w), trace := trace w @ [(Db_statement, True)]\<rparr>)))"
  by (simp add: execute_clause_def db_call_fault_at split: option.split)

lemma bucket_apply_clause: "bucket (apply_clause c w) = bucket w"
  by (cases c) simp_all

lemma tx_apply_clause:
  "tx_assets (apply_clause c w) = tx_assets w \<and> tx_labels (apply_clause c w) = tx_labels w"
  by (cases c) simp_all

lemma execute_clauses_keeps:
  "bucket (snd (execute_clauses cs w)) = bucket w \<and>
   tx_assets (snd (execute_clauses cs w)) = tx_assets w \<and>
   tx_labels (snd (execute_clauses cs w)) = tx_labels w"
proof (induction cs arbitrary: w)
  case Nil
  show ?case by simp
next
  case (Cons c cs)
  show ?case
  proof (cases "fault_at 0 (db_faults w)")
    case (Some m)
    then show ?thesis by (simp add: execute_clause_eq)
  next
    case None
    let ?w1 = "apply_clause c
      (w\<lparr>db_faults := tl (db_faults w), trace := trace w @ [(Db_statement, True)]\<rparr>)"
    have "execute_clauses (c # cs) w = execute_clauses cs ?w1"
      using None by (simp add: execute_clause_eq)
    then show ?thesis
      using Cons[of ?w1] by (simp add: bucket_apply_clause tx_apply_clause)
  qed
qed

text \<open>When every statement of the list went through, the truncations have been done.\<close>

lemma execute_clauses_truncated:
  assumes "fst (execute_clauses cs w) = Inr u"
  shows "(Truncate_assets \<in> set cs \<longrightarrow> assets (snd (execute_clauses cs w)) = []) \<and>
         (Truncate_assets \<notin> set cs \<longrightarrow> assets (snd (execute_clauses cs w)) = assets w) \<and>
         (Truncate_labels \<in> set cs \<longrightarrow> labels (snd (execute_clauses cs w)) = []) \<and>
         (Truncate_labels \<notin> set cs \<longrightarrow> labels (snd (execute_clauses cs w)) = labels w)"
  using assms
proof (induction cs arbitrary: w)
  case Nil
  show ?case by simp
next
  case (Cons c cs)
  show ?case
  proof (cases "fault_at 0 (db_faults w)")
    case (Some m)
    then show ?thesis using Cons.prems by (simp add: execute_clause_eq)
  next
    case None
    let ?w1 = "apply_clause c
      (w\<lparr>db_faults := tl (db_faults w), trace := trace w @ [(Db_statement, True)]\<rparr>)"
    have step: "execute_clauses (c # cs) w = execute_clauses cs ?w1"
      using None by (simp add: execute_clause_eq)
    have ih: "(Truncate_assets \<in> set cs \<longrightarrow> assets (snd (execute_clauses cs ?w1)) = []) \<and>
         (Truncate_assets \<notin> set cs \<longrightarrow> assets (snd (execute_clauses cs ?w1)) = assets ?w1) \<and>
         (Truncate_labels \<in> set cs \<longrightarrow> labels (snd (execute_clauses cs ?w1)) = []) \<and>
         (Truncate_labels \<notin> set cs \<longrightarrow> labels (snd (execute_clauses cs ?w1)) = labels ?w1)"
      using Cons.IH[of ?w1] Cons.prems step by simp
    show ?thesis
      unfolding step using ih by (cases c) auto
  qed
qed

lemma clear_db_effect:
  "bucket (snd (clear_db w)) = bucket w \<and>
   (\<forall>u. fst (clear_db w) = Inr u \<longrightarrow>
      assets (snd (clear_db w)) = [] \<and> labels (snd (clear_db w)) = [])"
proof (cases "fault_at 0 (db_faults w)")
  case (Some m)
  then show ?thesis by (simp add: clear_db_def beginTransaction_eq)
next
  case None
  let ?w1 = "w\<lparr>db_faults := tl (db_faults w), trace := trace w @ [(Db_begin, True)],
                tx_assets := [], tx_labels := []\<rparr>"
  obtain r w2 where ec: "execute_clauses delete_sql ?w1 = (r, w2)"
    by (cases "execute_clauses delete_sql ?w1")
  note keeps = execute_clauses_keeps[of delete_sql ?w1, unfolded ec, simplified]
  show ?thesis
  proof (cases r)
    case (Inl e)
    then show ?thesis
      using None keeps by (simp add: clear_db_def beginTransaction_eq ec rollback_and_rethrow_eq)
  next
    case (Inr u)
    have "fst (execute_clauses delete_sql ?w1) = Inr u" using ec Inr by simp
    moreover have "Truncate_assets \<in> set delete_sql \<and> Truncate_labels \<in> set delete_sql"
      by (simp add: delete_sql_def)
    ultimately have "assets w2 = [] \<and> labels w2 = []"
      using execute_clauses_truncated[of delete_sql ?w1 u] by (simp add: ec)
    then show ?thesis
      using None keeps Inr
      by (cases "fault_at 0 (db_faults w2)")
        (simp_all add: clear_db_def beginTransaction_eq ec rollback_and_rethrow_eq commit_eq)
  qed
qed

lemma clear_bkt_failed:
  assumes "fst (clear_bkt keydict w) = Inl e"
  shows "assets (snd (clear_bkt keydict w)) = assets w \<and>
         labels (snd (clear_bkt keydict w)) = labels w \<and>
         bucket (snd (clear_bkt keydict w)) = bucket w"
  using assms
  by (cases "fault_at 0 (s3_faults w)") (simp_all add: clear_bkt_def s3_call_fault_at)

text \<open>
  C5. Bulk Clear when the tables have been cleared and the deletion in the object store
  then fails. The claim expects a success report. \<^verbatim>\<open>clear_bkt\<close> rethrows, and the
  handler reports the failure: in the sample world with a refusing object store the
  answer is status 500 with the object store's message.
\<close>

theorem delete_images_bucket_failure_counterexample:
  "fst (clear_db (snd (pRetry 2 get_keys (get_dbConn bucket_failure_world)))) = Inr () \<and>
   fst (clear_bkt [''p_sarkar/u0-dog.jpg'']
          (snd (clear_db (snd (pRetry 2 get_keys (get_dbConn bucket_failure_world)))))) =
     Inl (Error ''AccessDenied'') \<and>
   fst (delete_images bucket_failure_world) =
     \<lparr>d_status = 500, d_message = ''AccessDenied''\<rparr>"
  by code_simp

text \<open>
  C5, as the code has it. When the keys were fetched and there is at least one, the
  clearing transaction succeeded and the deletion in the object store failed, the
  handler answers with status 500 and the message of that failure; both tables are
  empty and the object store is as before.
\<close>

theorem delete_images_reports_bucket_failure:
  assumes "fst (pRetry 2 get_keys (get_dbConn w)) = Inr keys"
    and "0 < length keys"
    and "fst (clear_db (snd (pRetry 2 get_keys (get_dbConn w)))) = Inr u"
    and "fst (clear_bkt keys (snd (clear_db (snd (pRetry 2 get_keys (get_dbConn w)))))) = Inl e"
  shows "fst (delete_images w) = \<lparr>d_status = 500, d_message = message e\<rparr> \<and>
         assets (snd (delete_images w)) = [] \<and>
         labels (snd (delete_images w)) = [] \<and>
         bucket (snd (delete_images w)) = bucket w"
proof -
  let ?w0 = "get_dbConn w"
  obtain w1 where 1: "pRetry 2 get_keys ?w0 = (Inr keys, w1)"
    using assms(1) by (cases "pRetry 2 get_keys ?w0") simp
  obtain w2 where 2: "clear_db w1 = (Inr u, w2)"
    using assms(3) by (cases "clear_db w1") (simp add: 1)
  obtain w3 where 3: "clear_bkt keys w2 = (Inl e, w3)"
    using assms(4) by (cases "clear_bkt keys w2") (simp add: 1 2)
  have "bucket w1 = bucket ?w0"
    using pRetry_keeps[of bucket get_keys, OF get_keys_bucket, of 2 ?w0] by (simp add: 1)
  then have b1: "bucket w1 = bucket w"
    by (simp add: get_dbConn_def)
  have c2: "assets w2 = [] \<and> labels w2 = [] \<and> bucket w2 = bucket w1"
    using clear_db_effect[of w1] by (simp add: 2)
  have c3: "assets w3 = assets w2 \<and> labels w3 = labels w2 \<and> bucket w3 = bucket w2"
    using clear_bkt_failed[of keys w2 e] by (simp add: 3)
  have "delete_images_try ?w0 = (Inl e, w3)"
    using assms(2) by (simp add: delete_images_try_def 1 2 3)
  then show ?thesis
    using b1 c2 c3 by (simp add: delete_images_def dbConn_end_def)
qed


theorem delete_images_reports_bucket_failure_witness:
  "fst (pRetry 2 get_keys (get_dbConn bucket_failure_world)) = Inr [''p_sarkar/u0-dog.jpg''] \<and>
   0 < length [''p_sarkar/u0-dog.jpg''] \<and>
   fst (clear_db (snd (pRetry 2 get_keys (get_dbConn bucket_failure_world)))) = Inr () \<and>
   fst (clear_bkt [''p_sarkar/u0-dog.jpg'']
          (snd (clear_db (snd (pRetry 2 get_keys (get_dbConn bucket_failure_world)))))) =
     Inl (Error ''AccessDenied'') \<and>
   fst (delete_images bucket_failure_world) =
     \<lparr>d_status = 500, d_message = message (Error ''AccessDenied'')\<rparr> \<and>
   assets (snd (delete_images bucket_failure_world)) = [] \<and>
   labels (snd (delete_images bucket_failure_world)) = [] \<and>
   bucket (snd (delete_images bucket_failure_world)) = bucket bucket_failure_world"
proof -
  have h1: "fst (pRetry 2 get_keys (get_dbConn bucket_failure_world)) =
      Inr [''p_sarkar/u0-dog.jpg'']"
    by code_simp
  have h2: "0 < length [''p_sarkar/u0-dog.jpg'']"
    by simp
  have h3: "fst (clear_db (snd (pRetry 2 get_keys (get_dbConn bucket_failure_world)))) = Inr ()"
    by code_simp
  have h4: "fst (clear_bkt [''p_sarkar/u0-dog.jpg'']
          (snd (clear_db (snd (pRetry 2 get_keys (get_dbConn bucket_failure_world)))))) =
     Inl (Error ''AccessDenied'')"
    by code_simp
  show ?thesis
    using delete_images_reports_bucket_failure[OF h1 h2 h3 h4] h1 h2 h3 h4 by simp
qed

subsection \<open>post /image: the steps of the pipeline\<close>

lemma lookup_user_keeps:
  "tables (snd (lookup_user userid w)) = tables w \<and>
   outside_db (snd (lookup_user userid w)) = outside_db w"
  by (cases "fault_at 0 (db_faults w)")
    (simp_all add: lookup_user_def execute_select_username_def db_call_fault_at
      tables_def outside_db_def)

lemma upload_to_bucket_effect:
  "tables (snd (upload_to_bucket username fn img w)) = tables w \<and>
   users (snd (upload_to_bucket username fn img w)) = users w \<and>
   rkg_answers (snd (upload_to_bucket username fn img w)) = rkg_answers w \<and>
   (\<forall>key. fst (upload_to_bucket username fn img w) = Inr key \<longrightarrow>
      bucket (snd (upload_to_bucket username fn img w)) = (bucket w)(key \<mapsto> img))"
  by (cases "uuids w"; cases "fault_at 0 (s3_faults w)")
    (simp_all add: upload_to_bucket_def uuidv4_def bkt_send_put_def s3_call_fault_at
      tables_def Let_def)

text \<open>One attempt of the registration.\<close>

lemma update_db_effect:
  "labels (snd (update_db userid fn key w)) = labels w \<and>
   outside_db (snd (update_db userid fn key w)) = outside_db w \<and>
   auto_increment w \<le> auto_increment (snd (update_db userid fn key w)) \<and>
   (case fst (update_db userid fn key w) of
      Inr a \<Rightarrow>
        auto_increment w \<le> a \<and>
        assets (snd (update_db userid fn key w)) =
          assets w @ [\<lparr>a_assetid = a, a_userid = userid, a_localname = fn, a_bucketkey = key\<rparr>]
    | Inl e \<Rightarrow>
        assets (snd (update_db userid fn key w)) = assets w \<and> \<not> instanceof_ValueError e)"
  by (cases "fault_at 0 (db_faults w)"; cases "fault_at 1 (db_faults w)";
      cases "fault_at 2 (db_faults w)"; cases "fault_at 3 (db_faults w)")
    (simp_all add: update_db_def beginTransaction_eq execute_insert_asset_eq commit_eq
      rollback_and_rethrow_eq fault_at_tl outside_db_def numeral_2_eq_2 numeral_3_eq_3)

lemma pRetry_update_db_effect:
  "labels (snd (pRetry n (update_db userid fn key) w)) = labels w \<and>
   outside_db (snd (pRetry n (update_db userid fn key) w)) = outside_db w \<and>
   auto_increment w \<le> auto_increment (snd (pRetry n (update_db userid fn key) w)) \<and>
   (case fst (pRetry n (update_db userid fn key) w) of
      Inr a \<Rightarrow>
        auto_increment w \<le> a \<and>
        assets (snd (pRetry n (update_db userid fn key) w)) =
          assets w @ [\<lparr>a_assetid = a, a_userid = userid, a_localname = fn, a_bucketkey = key\<rparr>]
    | Inl e \<Rightarrow>
        assets (snd (pRetry n (update_db userid fn key) w)) = assets w \<and>
        \<not> instanceof_ValueError e)"
proof (induction n arbitrary: w)
  case 0
  obtain r w1 where 1: "update_db userid fn key w = (r, w1)"
    by (cases "update_db userid fn key w")
  note eff = update_db_effect[of userid fn key w, unfolded 1, simplified]
  show ?case using eff by (cases r) (simp_all add: 1)
next
  case (Suc n)
  obtain r w1 where 1: "update_db userid fn key w = (r, w1)"
    by (cases "update_db userid fn key w")
  note eff = update_db_effect[of userid fn key w, unfolded 1, simplified]
  show ?case
  proof (cases r)
    case (Inr a)
    then show ?thesis using eff by (simp add: 1)
  next
    case (Inl e)
    obtain r2 w2 where 2: "pRetry n (update_db userid fn key) w1 = (r2, w2)"
      by (cases "pRetry n (update_db userid fn key) w1")
    note ih = Suc[of w1, unfolded 2, simplified]
    show ?thesis
      using Inl eff ih by (cases r2) (simp_all add: 1 2)
  qed
qed

lemma detect_labels_effect:
  "tables (snd (detect_labels img w)) = tables w \<and>
   bucket (snd (detect_labels img w)) = bucket w \<and>
   users (snd (detect_labels img w)) = users w \<and>
   (\<forall>ls. fst (detect_labels img w) = Inr ls \<longrightarrow>
      ls = take 10 (filter (\<lambda>l. 90 \<le> Confidence l)
                      (case rkg_answers w of Inr seen # rs \<Rightarrow> seen | _ \<Rightarrow> [])))"
  by (cases "rkg_answers w"; cases "hd (rkg_answers w)")
    (simp_all add: detect_labels_def rkg_send_def tables_def)

lemma pRetry_lookup_user_keeps:
  "tables (snd (pRetry n (lookup_user userid) w)) = tables w \<and>
   outside_db (snd (pRetry n (lookup_user userid) w)) = outside_db w"
  using pRetry_keeps[of "\<lambda>w. (tables w, outside_db w)" "lookup_user userid" n w]
    lookup_user_keeps
  by simp

text \<open>The new row is the only one with its id when no row has an id that was not handed
  out yet.\<close>

lemma filter_new_asset:
  assumes "filter (\<lambda>r. n \<le> a_assetid r) rows = []" and "n \<le> a_assetid row"
  shows "filter (\<lambda>r. a_assetid r = a_assetid row) (rows @ [row]) = [row]"
proof -
  have "\<forall>r\<in>set rows. a_assetid r \<noteq> a_assetid row"
    using assms by (auto simp: filter_empty_conv)
  then have "filter (\<lambda>r. a_assetid r = a_assetid row) rows = []"
    by (simp add: filter_empty_conv)
  then show ?thesis by simp
qed

lemma filter_no_label:
  assumes "filter (\<lambda>l. n \<le> l_assetid l) rows = []" and "n \<le> a"
  shows "filter (\<lambda>l. l_assetid l = a) rows = []"
  using assms by (auto simp: filter_empty_conv)

lemma detect_labels_error:
  assumes "detect_labels img w = (Inl e, w')"
  shows "\<not> instanceof_ValueError e"
  using assms
  by (cases "rkg_answers w"; cases "hd (rkg_answers w)")
    (auto simp: detect_labels_def rkg_send_def)

lemma promise_all_Inr:
  assumes "promise_all p q w = (Inr (a, b), w')"
  obtains w1 where "p w = (Inr a, w1)" and "q w1 = (Inr b, w')"
proof -
  obtain r1 w1 where 1: "p w = (r1, w1)" by (cases "p w")
  obtain r2 w2 where 2: "q w1 = (r2, w2)" by (cases "q w1")
  have "r1 = Inr a \<and> r2 = Inr b \<and> w2 = w'"
    using assms by (cases r1; cases r2) (simp_all add: promise_all_def 1 2)
  then show ?thesis using that 1 2 by simp
qed

lemma insort_key_map:
  "insort_key k (h x) (map h xs) = map h (insort_key (\<lambda>y. k (h y)) x xs)"
  by (induction xs) simp_all

lemma sort_key_map:
  "sort_key k (map h xs) = map h (sort_key (\<lambda>y. k (h y)) xs)"
  by (induction xs) (simp_all add: insort_key_map)

lemma listed_label_rows:
  "map (\<lambda>r. (l_label r, l_confidence r)) (sort_key l_label (label_rows a ls)) =
   map (\<lambda>l. (Name l, \<lfloor>Confidence l\<rfloor>)) (sort_key Name ls)"
  by (simp add: label_rows_def sort_key_map comp_def)

lemma filter_label_rows: "filter (\<lambda>l. l_assetid l = a) (label_rows a ls) = label_rows a ls"
  by (simp add: label_rows_def filter_map comp_def)

lemma detect_labels_reads_answers:
  assumes "rkg_answers w = rkg_answers w'"
  shows "fst (detect_labels img w) = fst (detect_labels img w')"
  using assms
  by (cases "rkg_answers w'"; cases "hd (rkg_answers w')")
    (simp_all add: detect_labels_def rkg_send_def)

lemma detect_labels_bounds:
  assumes "fst (detect_labels img w) = Inr detected"
  shows "list_all (\<lambda>l. 90 \<le> Confidence l) detected \<and> length detected \<le> 10"
proof -
  have "detected = take 10 (filter (\<lambda>l. 90 \<le> Confidence l)
                      (case rkg_answers w of Inr seen # rs \<Rightarrow> seen | _ \<Rightarrow> []))"
    using detect_labels_effect[of img w] assms by simp
  then show ?thesis
    by (auto simp: list_all_iff dest: in_set_takeD)
qed

lemma post_image_try_Inr:
  assumes "post_image_try request w = (Inr a, w4)"
  obtains username w1 bkt_key w2 where
    "pRetry 2 (lookup_user (pi_userid request)) w = (Inr username, w1)"
    "upload_to_bucket username (pi_local_filename request) (pi_data request) w1 =
       (Inr bkt_key, w2)"
    "register_and_label (pi_userid request) (pi_local_filename request) (pi_data request)
       bkt_key w2 = (Inr a, w4)"
proof -
  obtain r1 w1 where 1: "pRetry 2 (lookup_user (pi_userid request)) w = (r1, w1)"
    by (cases "pRetry 2 (lookup_user (pi_userid request)) w")
  show ?thesis
  proof (cases r1)
    case (Inl e)
    then show ?thesis using assms by (simp add: post_image_try_def Let_def 1)
  next
    case (Inr username)
    obtain r2 w2 where 2:
      "upload_to_bucket username (pi_local_filename request) (pi_data request) w1 = (r2, w2)"
      by (cases "upload_to_bucket username (pi_local_filename request) (pi_data request) w1")
    show ?thesis
    proof (cases r2)
      case (Inl e)
      then show ?thesis using assms Inr by (simp add: post_image_try_def Let_def 1 2)
    next
      case k: (Inr bkt_key)
      have "register_and_label (pi_userid request) (pi_local_filename request)
              (pi_data request) bkt_key w2 = (Inr a, w4)"
        using assms Inr k by (simp add: post_image_try_def Let_def 1 2)
      then show ?thesis using that 1 2 Inr k by simp
    qed
  qed
qed

lemma register_and_label_Inr:
  assumes "register_and_label userid fn img key w2 = (Inr a, w5)"
  obtains rkg w3 w4 where
    "pRetry 2 (update_db userid fn key) w2 = (Inr a, w3)"
    "detect_labels img w3 = (Inr rkg, w4)"
    "pRetry 2 (update_labels a rkg) w4 = (Inr (), w5)"
proof -
  obtain r w4 where 1:
    "promise_all (pRetry 2 (update_db userid fn key)) (detect_labels img) w2 = (r, w4)"
    by (cases "promise_all (pRetry 2 (update_db userid fn key)) (detect_labels img) w2")
  show ?thesis
  proof (cases r)
    case (Inl e)
    then show ?thesis using assms by (simp add: register_and_label_def 1)
  next
    case (Inr p)
    obtain a' rkg where p: "p = (a', rkg)" by (cases p)
    obtain r5 w5' where 2: "pRetry 2 (update_labels a' rkg) w4 = (r5, w5')"
      by (cases "pRetry 2 (update_labels a' rkg) w4")
    have "r5 = Inr () \<and> a' = a \<and> w5' = w5"
      using assms Inr p by (cases r5) (simp_all add: register_and_label_def 1 2)
    then have 3: "pRetry 2 (update_labels a rkg) w4 = (Inr (), w5)"
      and 4: "promise_all (pRetry 2 (update_db userid fn key)) (detect_labels img) w2 =
               (Inr (a, rkg), w4)"
      using 1 2 Inr p by simp_all
    from promise_all_Inr[OF 4] obtain w3 where
      "pRetry 2 (update_db userid fn key) w2 = (Inr a, w3)" "detect_labels img w3 = (Inr rkg, w4)"
      by blast
    then show ?thesis using that 3 by blast
  qed
qed

lemma post_image_200:
  assumes "post_image request w = (response, w')" and "pi_status response = 200"
  obtains w4 where "post_image_try request (get_dbConn w) = (Inr (pi_assetid response), w4)"
    and "w' = dbConn_end w4"
proof -
  obtain r w4 where 1: "post_image_try request (get_dbConn w) = (r, w4)"
    by (cases "post_image_try request (get_dbConn w)")
  show ?thesis
  proof (cases r)
    case (Inl e)
    then show ?thesis using assms by (auto simp: post_image_def 1 split: if_splits)
  next
    case (Inr a)
    then show ?thesis using assms that by (auto simp: post_image_def 1)
  qed
qed

lemma floor_at_least_90:
  fixes c :: real
  assumes "90 \<le> c"
  shows "90 \<le> \<lfloor>c\<rfloor>"
  using assms by (simp add: le_floor_iff)

lemma parseInt_1002: "parseInt ''1002'' = Some 1002"
  by (simp add: parseInt_unfold)

subsection \<open>post /image: a failing detector\<close>

text \<open>
  C4. The registration commits its asset row and the label detection fails. In a world
  where no row carries an id that was not handed out yet, the upload is answered with
  status 500 and the detector's message, and the asset row is in the table afterwards.
  Later requests whose calls all succeed find it: the unfiltered list contains the row,
  Retrieve returns its owner, file name and image, and List Labels returns success with
  an empty list.
\<close>

theorem post_image_detect_labels_failure:
  assumes "filter (\<lambda>a. auto_increment w \<le> a_assetid a) (assets w) = []"
    and "filter (\<lambda>l. auto_increment w \<le> l_assetid l) (labels w) = []"
    and "pRetry 2 (lookup_user (pi_userid request)) (get_dbConn w) = (Inr username, w1)"
    and "upload_to_bucket username (pi_local_filename request) (pi_data request) w1 =
           (Inr bkt_key, w2)"
    and "pRetry 2 (update_db (pi_userid request) (pi_local_filename request) bkt_key) w2 =
           (Inr assetid, w3)"
    and "detect_labels (pi_data request) w3 = (Inl e, w4)"
    and "parseInt param = Some assetid"
  shows "post_image request w =
           (\<lparr>pi_status = 500, pi_message = message e, pi_assetid = - 1\<rparr>, dbConn_end w4) \<and>
         \<lparr>a_assetid = assetid, a_userid = pi_userid request,
           a_localname = pi_local_filename request, a_bucketkey = bkt_key\<rparr>
           \<in> set (assets (dbConn_end w4)) \<and>
         gs_status (fst (get_images None ((dbConn_end w4)\<lparr>db_faults := [], s3_faults := []\<rparr>)))
           = 200 \<and>
         \<lparr>a_assetid = assetid, a_userid = pi_userid request,
           a_localname = pi_local_filename request, a_bucketkey = bkt_key\<rparr>
           \<in> set (gs_data
                 (fst (get_images None ((dbConn_end w4)\<lparr>db_faults := [], s3_faults := []\<rparr>)))) \<and>
         fst (get_image param ((dbConn_end w4)\<lparr>db_faults := [], s3_faults := []\<rparr>)) =
           \<lparr>gi_status = 200, gi_message = ''success'', gi_userid = pi_userid request,
             gi_local_filename = Some (pi_local_filename request),
             gi_data = Some (pi_data request)\<rparr> \<and>
         fst (get_image_labels param ((dbConn_end w4)\<lparr>db_faults := [], s3_faults := []\<rparr>)) =
           \<lparr>gl_status = 200, gl_message = ''success'', gl_data = []\<rparr>"
proof -
  let ?row = "\<lparr>a_assetid = assetid, a_userid = pi_userid request,
           a_localname = pi_local_filename request, a_bucketkey = bkt_key\<rparr>"
  let ?later = "(dbConn_end w4)\<lparr>db_faults := [], s3_faults := []\<rparr>"
  \<comment> \<open>the lookup and the upload\<close>
  have k1: "tables w1 = tables w"
    using pRetry_lookup_user_keeps[of 2 "pi_userid request" "get_dbConn w"]
    by (simp add: assms(3)) (simp add: get_dbConn_def tables_def)
  note up = upload_to_bucket_effect[of username "pi_local_filename request" "pi_data request" w1,
      unfolded assms(4), simplified]
  have k2: "tables w2 = tables w" using up k1 by simp
  have b2: "bucket w2 bkt_key = Some (pi_data request)" using up by simp
  \<comment> \<open>the registration\<close>
  note reg = pRetry_update_db_effect[of 2 "pi_userid request" "pi_local_filename request"
      bkt_key w2, unfolded assms(5), simplified]
  have a3: "assets w3 = assets w @ [?row]" using reg k2 by (simp add: tables_def)
  have l3: "labels w3 = labels w" using reg k2 by (simp add: tables_def)
  have n3: "auto_increment w \<le> assetid" using reg k2 by (simp add: tables_def)
  have b3: "bucket w3 bkt_key = Some (pi_data request)"
    using reg b2 by (simp add: outside_db_def)
  \<comment> \<open>the detection\<close>
  note det = detect_labels_effect[of "pi_data request" w3, unfolded assms(6), simplified]
  have a4: "assets w4 = assets w @ [?row]" using det a3 by (simp add: tables_def)
  have l4: "labels w4 = labels w" using det l3 by (simp add: tables_def)
  have b4: "bucket w4 bkt_key = Some (pi_data request)" using det b3 by simp
  \<comment> \<open>the response\<close>
  have pa: "promise_all
      (pRetry 2 (update_db (pi_userid request) (pi_local_filename request) bkt_key))
      (detect_labels (pi_data request)) w2 = (Inl e, w4)"
    using assms(5) assms(6) by (simp add: promise_all_def)
  have "post_image_try request (get_dbConn w) = (Inl e, w4)"
    by (simp add: post_image_try_def Let_def assms(3) assms(4) register_and_label_def pa)
  then have resp: "post_image request w =
      (\<lparr>pi_status = 500, pi_message = message e, pi_assetid = - 1\<rparr>, dbConn_end w4)"
    using detect_labels_error[OF assms(6)] by (simp add: post_image_def)
  \<comment> \<open>the later requests\<close>
  have one: "filter (\<lambda>r. a_assetid r = assetid) (assets ?later) = [?row]"
    using filter_new_asset[OF assms(1), of ?row] n3 a4 by (simp add: dbConn_end_def)
  have none: "filter (\<lambda>l. l_assetid l = assetid) (labels ?later) = []"
    using filter_no_label[OF assms(2) n3] l4 by (simp add: dbConn_end_def)
  have gl: "fst (get_image_labels param ?later) =
           \<lparr>gl_status = 200, gl_message = ''success'', gl_data = []\<rparr>"
    using get_image_labels_answered[of ?later param assetid ?row] assms(7) one none
    by simp
  have gi: "fst (get_image param ?later) =
           \<lparr>gi_status = 200, gi_message = ''success'', gi_userid = pi_userid request,
             gi_local_filename = Some (pi_local_filename request),
             gi_data = Some (pi_data request)\<rparr>"
    using get_image_answered[of ?later param assetid ?row "pi_data request"] assms(7) one b4
    by (simp add: dbConn_end_def)
  have gs: "fst (get_images None ?later) =
           \<lparr>gs_status = 200, gs_message = ''success'',
             gs_data = sort_key a_assetid (assets ?later)\<rparr>"
    by (rule get_images_answered) simp
  have mem: "?row \<in> set (assets (dbConn_end w4))"
    using a4 by (simp add: dbConn_end_def)
  have mem2: "?row \<in> set (gs_data (fst (get_images None ?later)))"
    unfolding gs using a4 by (simp add: dbConn_end_def)
  have st: "gs_status (fst (get_images None ?later)) = 200"
    unfolding gs by simp
  show ?thesis
    using resp mem st mem2 gi gl by (intro conjI)
qed

theorem post_image_detect_labels_failure_witness:
  "filter (\<lambda>a. auto_increment detector_failure_world \<le> a_assetid a)
     (assets detector_failure_world) = [] \<and>
   filter (\<lambda>l. auto_increment detector_failure_world \<le> l_assetid l)
     (labels detector_failure_world) = [] \<and>
   pRetry 2 (lookup_user (pi_userid cat_upload)) (get_dbConn detector_failure_world) =
     (Inr ''p_sarkar'', after_lookup) \<and>
   upload_to_bucket ''p_sarkar'' (pi_local_filename cat_upload) (pi_data cat_upload)
     after_lookup = (Inr ''p_sarkar/u1-cat.jpg'', after_upload) \<and>
   pRetry 2 (update_db (pi_userid cat_upload) (pi_local_filename cat_upload)
     ''p_sarkar/u1-cat.jpg'') after_upload = (Inr 1002, after_registration) \<and>
   detect_labels (pi_data cat_upload) after_registration =
     (Inl (Error ''ThrottlingException''), after_detection) \<and>
   parseInt ''1002'' = Some 1002 \<and>
   fst (post_image cat_upload detector_failure_world) =
     \<lparr>pi_status = 500, pi_message = ''ThrottlingException'', pi_assetid = - 1\<rparr> \<and>
   fst (get_image ''1002''
          ((dbConn_end after_detection)\<lparr>db_faults := [], s3_faults := []\<rparr>)) =
     \<lparr>gi_status = 200, gi_message = ''success'', gi_userid = 80001,
       gi_local_filename = Some ''cat.jpg'', gi_data = Some ''BBBB''\<rparr> \<and>
   fst (get_image_labels ''1002''
          ((dbConn_end after_detection)\<lparr>db_faults := [], s3_faults := []\<rparr>)) =
     \<lparr>gl_status = 200, gl_message = ''success'', gl_data = []\<rparr>"
proof -
  have h1: "filter (\<lambda>a. auto_increment detector_failure_world \<le> a_assetid a)
     (assets detector_failure_world) = []"
    by (simp add: detector_failure_world_def example_world_def)
  have h2: "filter (\<lambda>l. auto_increment detector_failure_world \<le> l_assetid l)
     (labels detector_failure_world) = []"
    by (simp add: detector_failure_world_def example_world_def)
  have "fst (pRetry 2 (lookup_user 80001) (get_dbConn detector_failure_world)) =
      Inr ''p_sarkar''"
    by code_simp
  then have h3: "pRetry 2 (lookup_user (pi_userid cat_upload))
      (get_dbConn detector_failure_world) = (Inr ''p_sarkar'', after_lookup)"
    by (simp add: prod_eq_iff after_lookup_def cat_upload_def)
  have "fst (upload_to_bucket ''p_sarkar'' ''cat.jpg'' ''BBBB'' after_lookup) =
      Inr ''p_sarkar/u1-cat.jpg''"
    by code_simp
  then have h4: "upload_to_bucket ''p_sarkar'' (pi_local_filename cat_upload)
      (pi_data cat_upload) after_lookup = (Inr ''p_sarkar/u1-cat.jpg'', after_upload)"
    by (simp add: prod_eq_iff after_upload_def cat_upload_def)
  have "fst (pRetry 2 (update_db 80001 ''cat.jpg'' ''p_sarkar/u1-cat.jpg'') after_upload) =
      Inr 1002"
    by code_simp
  then have h5: "pRetry 2 (update_db (pi_userid cat_upload) (pi_local_filename cat_upload)
     ''p_sarkar/u1-cat.jpg'') after_upload = (Inr 1002, after_registration)"
    by (simp add: prod_eq_iff after_registration_def cat_upload_def)
  have "fst (detect_labels ''BBBB'' after_registration) = Inl (Error ''ThrottlingException'')"
    by code_simp
  then have h6: "detect_labels (pi_data cat_upload) after_registration =
     (Inl (Error ''ThrottlingException''), after_detection)"
    by (simp add: prod_eq_iff after_detection_def cat_upload_def)
  note h7 = parseInt_1002
  show ?thesis
    using post_image_detect_labels_failure[OF h1 h2 h3 h4 h5 h6 h7] h1 h2 h3 h4 h5 h6 h7
    by (simp add: cat_upload_def)
qed

subsection \<open>post /image: the labels of a successful upload\<close>

text \<open>
  C9. After a successful upload, in a world where no row carries an id that was not
  handed out yet, List Labels for the new assetid (with no failure of the store) returns
  the labels the detector gave for the image, sorted by name, each with the floor of its
  score. The detector's labels all have a score of at least 90, so every listed
  confidence is at least 90; there are at most 10 of them.
\<close>

theorem post_image_labels_listed:
  assumes "filter (\<lambda>a. auto_increment w \<le> a_assetid a) (assets w) = []"
    and "filter (\<lambda>l. auto_increment w \<le> l_assetid l) (labels w) = []"
    and "post_image request w = (response, w')"
    and "pi_status response = 200"
    and "fst (detect_labels (pi_data request) w) = Inr detected"
    and "parseInt param = Some (pi_assetid response)"
  shows "fst (get_image_labels param (w'\<lparr>db_faults := []\<rparr>)) =
           \<lparr>gl_status = 200, gl_message = ''success'',
             gl_data = map (\<lambda>l. (Name l, \<lfloor>Confidence l\<rfloor>)) (sort_key Name detected)\<rparr> \<and>
         list_all (\<lambda>l. 90 \<le> Confidence l) detected \<and>
         list_all (\<lambda>p. 90 \<le> snd p)
           (gl_data (fst (get_image_labels param (w'\<lparr>db_faults := []\<rparr>)))) \<and>
         length (gl_data (fst (get_image_labels param (w'\<lparr>db_faults := []\<rparr>)))) \<le> 10 \<and>
         sorted (map fst (gl_data (fst (get_image_labels param (w'\<lparr>db_faults := []\<rparr>)))))"
proof -
  let ?a = "pi_assetid response"
  let ?later = "w'\<lparr>db_faults := []\<rparr>"
  from post_image_200[OF assms(3,4)] obtain w5 where
    run: "post_image_try request (get_dbConn w) = (Inr ?a, w5)" and fin: "w' = dbConn_end w5"
    by blast
  from post_image_try_Inr[OF run] obtain username w1 bkt_key w2 where
    s1: "pRetry 2 (lookup_user (pi_userid request)) (get_dbConn w) = (Inr username, w1)" and
    s2: "upload_to_bucket username (pi_local_filename request) (pi_data request) w1 =
       (Inr bkt_key, w2)" and
    s3: "register_and_label (pi_userid request) (pi_local_filename request) (pi_data request)
       bkt_key w2 = (Inr ?a, w5)"
    by blast
  from register_and_label_Inr[OF s3] obtain rkg w3 w4 where
    s4: "pRetry 2 (update_db (pi_userid request) (pi_local_filename request) bkt_key) w2
          = (Inr ?a, w3)" and
    s5: "detect_labels (pi_data request) w3 = (Inr rkg, w4)" and
    s6: "pRetry 2 (update_labels ?a rkg) w4 = (Inr (), w5)"
    by blast
  let ?row = "\<lparr>a_assetid = ?a, a_userid = pi_userid request,
           a_localname = pi_local_filename request, a_bucketkey = bkt_key\<rparr>"
  \<comment> \<open>the lookup and the upload\<close>
  note lk = pRetry_lookup_user_keeps[of 2 "pi_userid request" "get_dbConn w",
      unfolded s1, simplified]
  have k1: "tables w1 = tables w" using lk by (simp add: get_dbConn_def tables_def)
  have r1: "rkg_answers w1 = rkg_answers w"
    using lk by (simp add: get_dbConn_def outside_db_def)
  note up = upload_to_bucket_effect[of username "pi_local_filename request" "pi_data request" w1,
      unfolded s2, simplified]
  have k2: "tables w2 = tables w" using up k1 by simp
  have r2: "rkg_answers w2 = rkg_answers w" using up r1 by simp
  \<comment> \<open>the registration\<close>
  note reg = pRetry_update_db_effect[of 2 "pi_userid request" "pi_local_filename request"
      bkt_key w2, unfolded s4, simplified]
  have a3: "assets w3 = assets w @ [?row]" using reg k2 by (simp add: tables_def)
  have l3: "labels w3 = labels w" using reg k2 by (simp add: tables_def)
  have n3: "auto_increment w \<le> ?a" using reg k2 by (simp add: tables_def)
  have r3: "rkg_answers w3 = rkg_answers w" using reg r2 by (simp add: outside_db_def)
  \<comment> \<open>the detection\<close>
  have "fst (detect_labels (pi_data request) w3) = fst (detect_labels (pi_data request) w)"
    by (rule detect_labels_reads_answers[OF r3])
  then have rkg: "rkg = detected" using s5 assms(5) by simp
  note det = detect_labels_effect[of "pi_data request" w3, unfolded s5, simplified]
  have a4: "assets w4 = assets w @ [?row]" using det a3 by (simp add: tables_def)
  have l4: "labels w4 = labels w" using det l3 by (simp add: tables_def)
  \<comment> \<open>the labels\<close>
  note lab = pRetry_update_labels_effect[of 2 ?a rkg w4, unfolded s6, simplified]
  have a5: "assets w5 = assets w @ [?row]" using lab a4 by simp
  have l5: "labels w5 = labels w @ label_rows ?a detected" using lab l4 rkg by simp
  \<comment> \<open>the later request\<close>
  have one: "filter (\<lambda>r. a_assetid r = ?a) (assets ?later) = [?row]"
    using filter_new_asset[OF assms(1), of ?row] n3 a5 by (simp add: fin dbConn_end_def)
  have mine: "filter (\<lambda>l. l_assetid l = ?a) (labels ?later) = label_rows ?a detected"
    using filter_no_label[OF assms(2) n3] l5
    by (simp add: fin dbConn_end_def filter_label_rows)
  have gl: "fst (get_image_labels param ?later) =
           \<lparr>gl_status = 200, gl_message = ''success'',
             gl_data = map (\<lambda>l. (Name l, \<lfloor>Confidence l\<rfloor>)) (sort_key Name detected)\<rparr>"
    using get_image_labels_answered[of ?later param ?a ?row] assms(6) one mine
    by (simp add: listed_label_rows)
  note bounds = detect_labels_bounds[OF assms(5)]
  have c1: "list_all (\<lambda>l. 90 \<le> Confidence l) detected" using bounds by simp
  have c2: "list_all (\<lambda>p. 90 \<le> snd p)
           (gl_data (fst (get_image_labels param ?later)))"
    unfolding gl using c1 by (auto simp: list_all_iff intro: floor_at_least_90)
  have c3: "length (gl_data (fst (get_image_labels param ?later))) \<le> 10"
    unfolding gl using bounds by simp
  have "map fst (map (\<lambda>l. (Name l, \<lfloor>Confidence l\<rfloor>)) (sort_key Name detected)) =
        map Name (sort_key Name detected)"
    by (simp add: comp_def)
  then have c4: "sorted (map fst (gl_data (fst (get_image_labels param ?later))))"
    unfolding gl by (simp del: map_map)
  show ?thesis
    using gl c1 c2 c3 c4 by (intro conjI)
qed

theorem post_image_labels_listed_witness:
  "filter (\<lambda>a. auto_increment example_world \<le> a_assetid a) (assets example_world) = [] \<and>
   filter (\<lambda>l. auto_increment example_world \<le> l_assetid l) (labels example_world) = [] \<and>
   fst (post_image cat_upload example_world) =
     \<lparr>pi_status = 200, pi_message = ''success'', pi_assetid = 1002\<rparr> \<and>
   fst (detect_labels (pi_data cat_upload) example_world) =
     Inr [\<lparr>Name = ''Sailboat'', Confidence = 995 / 10\<rparr>,
          \<lparr>Name = ''Boat'', Confidence = 917 / 10\<rparr>] \<and>
   parseInt ''1002'' = Some 1002 \<and>
   fst (get_image_labels ''1002''
          ((snd (post_image cat_upload example_world))\<lparr>db_faults := []\<rparr>)) =
     \<lparr>gl_status = 200, gl_message = ''success'',
       gl_data = [(''Boat'', 91), (''Sailboat'', 99)]\<rparr>"
proof -
  let ?resp = "\<lparr>pi_status = 200, pi_message = ''success'', pi_assetid = 1002\<rparr>"
  let ?det = "[\<lparr>Name = ''Sailboat'', Confidence = 995 / 10\<rparr>,
          \<lparr>Name = ''Boat'', Confidence = 917 / 10\<rparr>]"
  have h1: "filter (\<lambda>a. auto_increment example_world \<le> a_assetid a) (assets example_world) = []"
    by (simp add: example_world_def)
  have h2: "filter (\<lambda>l. auto_increment example_world \<le> l_assetid l) (labels example_world) = []"
    by (simp add: example_world_def)
  have r: "fst (post_image cat_upload example_world) = ?resp"
    by code_simp
  then have h3: "post_image cat_upload example_world =
      (?resp, snd (post_image cat_upload example_world))"
    by (simp add: prod_eq_iff)
  have h4: "pi_status ?resp = 200" by simp
  have h5: "fst (detect_labels (pi_data cat_upload) example_world) = Inr ?det"
    by (simp add: detect_labels_def rkg_send_def example_world_def)
  have h6: "parseInt ''1002'' = Some (pi_assetid ?resp)"
    using parseInt_1002 by simp
  have srt: "map (\<lambda>l. (Name l, \<lfloor>Confidence l\<rfloor>)) (sort_key Name ?det) =
      [(''Boat'', 91), (''Sailboat'', 99)]"
    by (simp add: less_eq_char_def less_char_def)
  show ?thesis
    using post_image_labels_listed[OF h1 h2 h3 h4 h5 h6] h1 h2 r h5 parseInt_1002
    unfolding srt by simp
qed

subsection \<open>post /image: the order of the calls\<close>

lemma emitsI: "trace w' = trace w @ seg \<Longrightarrow> P seg \<Longrightarrow> emits P w w'"
  by (auto simp: emits_def)

lemma emits_seq:
  assumes "emits P w w1" and "emits Q w1 w2"
    and "\<And>xs ys. P xs \<Longrightarrow> Q ys \<Longrightarrow> R (xs @ ys)"
  shows "emits R w w2"
proof -
  obtain xs where xs: "trace w1 = trace w @ xs" "P xs" using assms(1) by (auto simp: emits_def)
  obtain ys where ys: "trace w2 = trace w1 @ ys" "Q ys" using assms(2) by (auto simp: emits_def)
  have "trace w2 = trace w @ (xs @ ys)" using xs ys by simp
  then show ?thesis using assms(3)[OF xs(2) ys(2)] by (rule emitsI)
qed

lemma emits_weaken: "emits P w w' \<Longrightarrow> (\<And>seg. P seg \<Longrightarrow> Q seg) \<Longrightarrow> emits Q w w'"
  by (auto simp: emits_def)

lemma quiet_append: "quiet xs \<Longrightarrow> quiet ys \<Longrightarrow> quiet (xs @ ys)"
  by (simp add: quiet_def)

lemma label_tx_append: "label_tx a xs \<Longrightarrow> label_tx a ys \<Longrightarrow> label_tx a (xs @ ys)"
  by (simp add: label_tx_def)

lemma follow_append:
  "label_inserts_follow_commit st (xs @ ys) =
     (label_inserts_follow_commit st xs \<and> label_inserts_follow_commit (foldl track st xs) ys)"
  by (induction xs arbitrary: st) simp_all

lemma quiet_follow: "quiet seg \<Longrightarrow> label_inserts_follow_commit st seg"
proof (induction seg arbitrary: st)
  case Nil
  show ?case by simp
next
  case (Cons ev seg)
  then show ?case
    by (cases "fst ev") (simp_all add: quiet_def is_label_insert_def)
qed

lemma track_keeps_committed:
  assumes "a \<in> set (fst st)"
  shows "a \<in> set (fst (track st ev))"
proof -
  obtain cs ps where st: "st = (cs, ps)" by (cases st)
  obtain c ok where ev: "ev = (c, ok)" by (cases ev)
  show ?thesis using assms by (cases c) (simp_all add: st ev)
qed

lemma foldl_track_keeps_committed:
  "a \<in> set (fst st) \<Longrightarrow> a \<in> set (fst (foldl track st seg))"
  by (induction seg arbitrary: st) (simp_all add: track_keeps_committed)

lemma label_tx_follow:
  "label_tx a seg \<Longrightarrow> a \<in> set (fst st) \<Longrightarrow> label_inserts_follow_commit st seg"
proof (induction seg arbitrary: st)
  case Nil
  show ?case by simp
next
  case (Cons ev seg)
  have tl: "label_tx a seg" using Cons.prems(1) by (simp add: label_tx_def)
  have hd: "fst ev \<in> {Db_begin, Db_commit, Db_rollback, Db_insert_label a}"
    using Cons.prems(1) by (simp add: label_tx_def)
  have "case fst ev of Db_insert_label b \<Rightarrow> b \<in> set (fst st) | _ \<Rightarrow> True"
    using hd Cons.prems(2) by auto
  moreover have "label_inserts_follow_commit (track st ev) seg"
    by (rule Cons.IH[OF tl track_keeps_committed[OF Cons.prems(2)]])
  ultimately show ?case by simp
qed

lemma commits_last:
  "commits a (seg @ [(Db_begin, True), (Db_insert_asset a, True), (Db_commit, True)])"
proof -
  have "a \<in> set (fst (foldl track st
      [(Db_begin, True), (Db_insert_asset a, True), (Db_commit, True)]))" for st
    by (cases st) simp
  then show ?thesis unfolding commits_def by simp
qed

lemma commits_append:
  assumes "commits a ys"
  shows "commits a (xs @ ys)"
  unfolding commits_def
proof
  fix st
  have "a \<in> set (fst (foldl track (foldl track st xs) ys))"
    using assms unfolding commits_def by blast
  then show "a \<in> set (fst (foldl track st (xs @ ys)))" by simp
qed

lemma commits_then_more:
  assumes "commits a xs"
  shows "commits a (xs @ ys)"
  unfolding commits_def
proof
  fix st
  have "a \<in> set (fst (foldl track st xs))"
    using assms unfolding commits_def by blast
  then show "a \<in> set (fst (foldl track st (xs @ ys)))"
    by (simp add: foldl_track_keeps_committed)
qed

text \<open>After a segment that commits \<open>a\<close>, a label transaction for \<open>a\<close> is in order.\<close>

lemma registered_then_labelled:
  assumes "quiet xs" and "commits a xs" and "label_tx a ys"
  shows "label_inserts_follow_commit st (xs @ ys)"
proof -
  have "a \<in> set (fst (foldl track st xs))"
    using assms(2) unfolding commits_def by blast
  then show ?thesis
    using assms(1,3) by (simp add: follow_append quiet_follow label_tx_follow)
qed

lemma pRetry_emits:
  assumes "\<And>w. emits P w (snd (f w))"
    and "\<And>xs ys. P xs \<Longrightarrow> P ys \<Longrightarrow> P (xs @ ys)"
  shows "emits P w (snd (pRetry n f w))"
proof (induction n arbitrary: w)
  case 0
  show ?case using assms(1)[of w] by simp
next
  case (Suc n)
  obtain r w1 where 1: "f w = (r, w1)" by (cases "f w")
  have e1: "emits P w w1" using assms(1)[of w] by (simp add: 1)
  show ?case
  proof (cases r)
    case (Inr v)
    then show ?thesis using e1 by (simp add: 1)
  next
    case (Inl e)
    have "emits P w (snd (pRetry n f w1))"
      by (rule emits_seq[OF e1 Suc[of w1]]) (rule assms(2))
    then show ?thesis using Inl by (simp add: 1)
  qed
qed

lemma lookup_user_emits: "emits quiet w (snd (lookup_user userid w))"
  by (cases "fault_at 0 (db_faults w)")
    (simp_all add: lookup_user_def execute_select_username_def db_call_fault_at
      emits_def quiet_def is_label_insert_def)

lemma upload_to_bucket_emits: "emits quiet w (snd (upload_to_bucket username fn img w))"
  by (cases "uuids w"; cases "fault_at 0 (s3_faults w)")
    (simp_all add: upload_to_bucket_def uuidv4_def bkt_send_put_def s3_call_fault_at
      Let_def emits_def quiet_def is_label_insert_def)

lemma detect_labels_emits: "emits quiet w (snd (detect_labels img w))"
  by (cases "rkg_answers w"; cases "hd (rkg_answers w)")
    (simp_all add: detect_labels_def rkg_send_def emits_def quiet_def is_label_insert_def)

lemma commits_registration:
  "commits a [(Db_begin, True), (Db_insert_asset a, True), (Db_commit, True)]"
  using commits_last[of a "[]"] by simp

lemma update_db_emits:
  "emits (\<lambda>seg. quiet seg \<and>
            (case fst (update_db userid fn key w) of Inr a \<Rightarrow> commits a seg | Inl e \<Rightarrow> True))
     w (snd (update_db userid fn key w))"
  by (cases "fault_at 0 (db_faults w)"; cases "fault_at 1 (db_faults w)";
      cases "fault_at 2 (db_faults w)"; cases "fault_at 3 (db_faults w)")
    (simp_all add: update_db_def beginTransaction_eq execute_insert_asset_eq commit_eq
      rollback_and_rethrow_eq fault_at_tl numeral_2_eq_2 numeral_3_eq_3
      emits_def quiet_def is_label_insert_def commits_registration)

lemma pRetry_update_db_emits:
  "emits (\<lambda>seg. quiet seg \<and>
            (case fst (pRetry n (update_db userid fn key) w) of
               Inr a \<Rightarrow> commits a seg | Inl e \<Rightarrow> True))
     w (snd (pRetry n (update_db userid fn key) w))"
proof (induction n arbitrary: w)
  case 0
  show ?case using update_db_emits[of userid fn key w] by simp
next
  case (Suc n)
  obtain r w1 where 1: "update_db userid fn key w = (r, w1)"
    by (cases "update_db userid fn key w")
  note e1 = update_db_emits[of userid fn key w, unfolded 1, simplified]
  show ?case
  proof (cases r)
    case (Inr a)
    then show ?thesis using e1 by (simp add: 1)
  next
    case (Inl e)
    have q1: "emits quiet w w1" using e1 Inl by simp
    have "emits (\<lambda>seg. quiet seg \<and>
            (case fst (pRetry n (update_db userid fn key) w1) of
               Inr a \<Rightarrow> commits a seg | Inl e \<Rightarrow> True))
          w (snd (pRetry n (update_db userid fn key) w1))"
    proof (rule emits_seq[OF q1 Suc[of w1]])
      fix xs ys
      assume "quiet xs" and ys: "quiet ys \<and>
            (case fst (pRetry n (update_db userid fn key) w1) of
               Inr a \<Rightarrow> commits a ys | Inl e \<Rightarrow> True)"
      then show "quiet (xs @ ys) \<and>
            (case fst (pRetry n (update_db userid fn key) w1) of
               Inr a \<Rightarrow> commits a (xs @ ys) | Inl e \<Rightarrow> True)"
        by (cases "fst (pRetry n (update_db userid fn key) w1)")
          (simp_all add: quiet_append commits_append)
    qed
    then show ?thesis using Inl by (simp add: 1)
  qed
qed

lemma insert_labels_emits: "emits (label_tx a) w (snd (insert_labels a ls w))"
proof (induction ls arbitrary: w)
  case Nil
  show ?case by (simp add: emits_def label_tx_def)
next
  case (Cons l ls)
  show ?case
  proof (cases "fault_at 0 (db_faults w)")
    case (Some m)
    then show ?thesis
      by (simp add: execute_insert_label_eq emits_def label_tx_def)
  next
    case None
    let ?w1 = "w\<lparr>db_faults := tl (db_faults w),
                  trace := trace w @ [(Db_insert_label a, True)],
                  tx_labels := tx_labels w @
                    [\<lparr>l_assetid = a, l_label = Name l, l_confidence = \<lfloor>Confidence l\<rfloor>\<rparr>]\<rparr>"
    have step: "insert_labels a (l # ls) w = insert_labels a ls ?w1"
      using None by (simp add: execute_insert_label_eq)
    have e1: "emits (label_tx a) w ?w1"
      by (simp add: emits_def label_tx_def)
    show ?thesis
      unfolding step by (rule emits_seq[OF e1 Cons[of ?w1]]) (rule label_tx_append)
  qed
qed

lemma update_labels_emits: "emits (label_tx a) w (snd (update_labels a ls w))"
proof (cases "fault_at 0 (db_faults w)")
  case (Some m)
  then show ?thesis
    by (simp add: update_labels_def beginTransaction_eq emits_def label_tx_def)
next
  case None
  let ?w1 = "w\<lparr>db_faults := tl (db_faults w), trace := trace w @ [(Db_begin, True)],
                tx_assets := [], tx_labels := []\<rparr>"
  obtain r w2 where il: "insert_labels a ls ?w1 = (r, w2)"
    by (cases "insert_labels a ls ?w1")
  have e1: "emits (label_tx a) w ?w1"
    by (simp add: emits_def label_tx_def)
  have e2: "emits (label_tx a) ?w1 w2"
    using insert_labels_emits[of a ?w1 ls] by (simp add: il)
  have e12: "emits (label_tx a) w w2"
    by (rule emits_seq[OF e1 e2]) (rule label_tx_append)
  have e3: "emits (label_tx a) w2 (snd (update_labels a ls w))"
    using None
    by (cases r; cases "fault_at 0 (db_faults w2)")
      (simp_all add: update_labels_def beginTransaction_eq il rollback_and_rethrow_eq
        commit_eq emits_def label_tx_def)
  show ?thesis
    by (rule emits_seq[OF e12 e3]) (rule label_tx_append)
qed

lemma quiet_in_order: "quiet seg \<Longrightarrow> in_order seg"
  unfolding in_order_def by (blast intro: quiet_follow)

lemma in_order_after_quiet:
  assumes "quiet xs" and "in_order ys"
  shows "in_order (xs @ ys)"
  unfolding in_order_def
proof
  fix st
  have "label_inserts_follow_commit (foldl track st xs) ys"
    using assms(2) unfolding in_order_def by blast
  then show "label_inserts_follow_commit st (xs @ ys)"
    using quiet_follow[OF assms(1), of st] by (simp only: follow_append)
qed

lemma in_order_registered_then_labelled:
  assumes "quiet xs \<and> commits a xs" and "label_tx a ys"
  shows "in_order (xs @ ys)"
  unfolding in_order_def
  using assms by (blast intro: registered_then_labelled)

lemma register_and_label_emits:
  "emits in_order
     w (snd (register_and_label userid fn img key w))"
proof -
  obtain r3 w3 where 3: "pRetry 2 (update_db userid fn key) w = (r3, w3)"
    by (cases "pRetry 2 (update_db userid fn key) w")
  obtain r4 w4 where 4: "detect_labels img w3 = (r4, w4)"
    by (cases "detect_labels img w3")
  note e3 = pRetry_update_db_emits[of 2 userid fn key w, unfolded 3, simplified]
  have e4: "emits quiet w3 w4"
    using detect_labels_emits[of w3 img] by (simp add: 4)
  have q3: "emits quiet w w3"
    by (rule emits_weaken[OF e3]) simp
  have q4: "emits quiet w w4"
    by (rule emits_seq[OF q3 e4]) (rule quiet_append)
  have failed: "emits in_order w w4"
    by (rule emits_weaken[OF q4]) (rule quiet_in_order)
  show ?thesis
  proof (cases r3)
    case (Inl e3)
    then show ?thesis
      using failed by (cases r4) (simp_all add: register_and_label_def promise_all_def 3 4)
  next
    case a: (Inr a)
    show ?thesis
    proof (cases r4)
      case (Inl e4)
      then show ?thesis
        using failed a by (simp add: register_and_label_def promise_all_def 3 4)
    next
      case (Inr rkg)
      obtain r5 w5 where 5: "pRetry 2 (update_labels a rkg) w4 = (r5, w5)"
        by (cases "pRetry 2 (update_labels a rkg) w4")
      have e5: "emits (label_tx a) w4 w5"
        using pRetry_emits[of "label_tx a" "update_labels a rkg" w4 2,
            OF update_labels_emits label_tx_append]
        by (simp add: 5)
      have c3: "emits (\<lambda>seg. quiet seg \<and> commits a seg) w w3"
        using e3 a by simp
      have c4: "emits (\<lambda>seg. quiet seg \<and> commits a seg) w w4"
        by (rule emits_seq[OF c3 e4]) (simp add: quiet_append commits_then_more)
      have "emits in_order w w5"
        by (rule emits_seq[OF c4 e5]) (rule in_order_registered_then_labelled)
      then show ?thesis
        using a Inr by (cases r5) (simp_all add: register_and_label_def promise_all_def 3 4 5)
    qed
  qed
qed

lemma post_image_try_emits:
  "emits in_order
     w (snd (post_image_try request w))"
proof -
  obtain r1 w1 where 1: "pRetry 2 (lookup_user (pi_userid request)) w = (r1, w1)"
    by (cases "pRetry 2 (lookup_user (pi_userid request)) w")
  have e1: "emits quiet w w1"
    using pRetry_emits[of quiet "lookup_user (pi_userid request)" w 2,
        OF lookup_user_emits quiet_append]
    by (simp add: 1)
  show ?thesis
  proof (cases r1)
    case (Inl e)
    have "emits in_order w w1"
      by (rule emits_weaken[OF e1]) (rule quiet_in_order)
    then show ?thesis using Inl by (simp add: post_image_try_def Let_def 1)
  next
    case (Inr username)
    obtain r2 w2 where 2:
      "upload_to_bucket username (pi_local_filename request) (pi_data request) w1 = (r2, w2)"
      by (cases "upload_to_bucket username (pi_local_filename request) (pi_data request) w1")
    have e2: "emits quiet w1 w2"
      using upload_to_bucket_emits[of w1 username "pi_local_filename request" "pi_data request"]
      by (simp add: 2)
    have q2: "emits quiet w w2"
      by (rule emits_seq[OF e1 e2]) (rule quiet_append)
    show ?thesis
    proof (cases r2)
      case (Inl e)
      have "emits in_order w w2"
        by (rule emits_weaken[OF q2]) (rule quiet_in_order)
      then show ?thesis using Inl Inr by (simp add: post_image_try_def Let_def 1 2)
    next
      case k: (Inr bkt_key)
      have "emits in_order w
              (snd (register_and_label (pi_userid request) (pi_local_filename request)
                      (pi_data request) bkt_key w2))"
        by (rule emits_seq[OF q2 register_and_label_emits]) (rule in_order_after_quiet)
      then show ?thesis using Inr k by (simp add: post_image_try_def Let_def 1 2)
    qed
  qed
qed

text \<open>
  C2. In every execution of the upload pipeline, whatever fails and whenever: the trace of
  the request extends the trace before it, and in the events of the request every label
  insert that is sent, successful or not, carries an assetid whose asset insert has been
  committed earlier in this request.
\<close>

theorem post_image_label_inserts_follow_commit:
  "take (length (trace w)) (trace (snd (post_image request w))) = trace w \<and>
   label_inserts_follow_commit ([], [])
     (drop (length (trace w)) (trace (snd (post_image request w))))"
proof -
  obtain r w' where 1: "post_image_try request (get_dbConn w) = (r, w')"
    by (cases "post_image_try request (get_dbConn w)")
  have "emits in_order (get_dbConn w) w'"
    using post_image_try_emits[of "get_dbConn w" request] by (simp add: 1)
  then obtain seg where seg: "trace w' = trace w @ seg" and ord: "in_order seg"
    by (auto simp: emits_def get_dbConn_def)
  have chk: "label_inserts_follow_commit ([], []) seg"
    using ord unfolding in_order_def by blast
  have "trace (snd (post_image request w)) = trace w'"
    by (cases r) (simp_all add: post_image_def 1 dbConn_end_def)
  then show ?thesis using seg chk by simp
qed

text \<open>The calls of the sample upload, with its two label inserts after the commit of
  asset 1002.\<close>

lemma post_image_trace_example:
  "trace (snd (post_image cat_upload example_world)) =
     [(Db_select, True), (S3_put ''p_sarkar/u1-cat.jpg'', True),
      (Db_begin, True), (Db_insert_asset 1002, True), (Db_commit, True),
      (Rkg_detect, True),
      (Db_begin, True), (Db_insert_label 1002, True), (Db_insert_label 1002, True),
      (Db_commit, True)]"
  by code_simp

end
